theory Spec2Isabelle
  imports Main "HOL-Library.Word" "HOL-Library.Char_ord" "HOL-Library.List_Lexorder"
begin

section \<open>The S3 storage driver (storagedriver/s3/s3.go)\<close>

text \<open>
  A shallow embedding of the driver's methods. Go's \<open>uint64\<close> is \<open>64 word\<close>, so
  \<open>+\<close> and \<open>*\<close> wrap around as they do in Go. A runtime panic is a value of its own
  (\<open>Panic\<close>), kept apart from the \<open>error\<close> values a method returns. The remote
  object store and the input stream are not part of the driver: they are taken as a
  parameter (\<open>Env\<close>), a record of operations over a world state that is passed
  through every call. Go strings compare bytewise, which is the lexicographic
  order on \<open>char list\<close>.
\<close>

subsection \<open>Data\<close>

type_synonym u64 = "64 word"
type_synonym byte = "8 word"

datatype panic =
    DivideByZero | IndexOutOfRange | SliceBoundsOutOfRange | NilDereference
  | MakesliceLenOutOfRange

datatype 'a outcome = Return 'a | Panic panic

text \<open>
  Errors of the store client: \<open>*s3.Error\<close> and \<open>*aws.Error\<close> carry a code, anything
  else is opaque. \<open>io.ReadFull\<close> fails with \<open>io.EOF\<close>, \<open>io.ErrUnexpectedEOF\<close> or
  with an error of the underlying reader.
\<close>

datatype store_error = S3Error string | AwsError string | TransportError string

datatype io_error = EOF | ErrUnexpectedEOF | ReaderError string

text \<open>
  The \<open>error\<close> values a driver method returns: the two error structs of package
  storagedriver, or an error of the store or of the reader handed on unchanged. The
  store client and the reader are taken not to produce the two structs of package
  storagedriver themselves.
\<close>

datatype error =
    PathNotFoundError string
  | InvalidOffsetError string u64
  | StoreError store_error
  | ReadError io_error

text \<open>\<open>s3.Multi\<close>, \<open>s3.Part\<close> (its \<open>Size\<close> is an \<open>int64\<close>) and \<open>s3.ListResp\<close>;
  of each listed object only its key is used.\<close>

record Multi =
  Key :: string
  UploadId :: string

record Part =
  PartN :: int
  ETag :: string
  Size :: int

record ListResp =
  Contents :: "string list"
  CommonPrefixes :: "string list"
  IsTruncated :: bool
  NextMarker :: string

text \<open>
  The operations of \<open>s3.Bucket\<close> and \<open>s3.Multi\<close> that the driver calls, and
  \<open>io.ReadFull\<close> and \<open>Close\<close> on the reader given to WriteStream. Each takes the
  world and returns its result with the new world. \<open>io_ReadFull n\<close> is
  \<open>io.ReadFull(reader, buf)\<close> with \<open>len(buf) = n\<close>: it returns the bytes read
  (\<open>buf[0:bytesRead]\<close>) and the error. \<open>alloc_max\<close> is the greatest length for which
  \<open>make([]byte, n)\<close> returns a slice on the platform; for a greater length \<open>make\<close>
  panics (\<open>makeslice: len out of range\<close>).
\<close>

record 'w Env =
  bucket_ListMulti :: "string \<Rightarrow> string \<Rightarrow> 'w \<Rightarrow> (Multi list \<times> store_error option) \<times> 'w"
  bucket_InitMulti :: "string \<Rightarrow> 'w \<Rightarrow> (store_error + Multi) \<times> 'w"
  multi_ListParts :: "Multi \<Rightarrow> 'w \<Rightarrow> (store_error + Part list) \<times> 'w"
  multi_PutPart :: "Multi \<Rightarrow> int \<Rightarrow> byte list \<Rightarrow> 'w \<Rightarrow> (store_error + Part) \<times> 'w"
  multi_Complete :: "Multi \<Rightarrow> Part list \<Rightarrow> 'w \<Rightarrow> store_error option \<times> 'w"
  bucket_List :: "string \<Rightarrow> string \<Rightarrow> string \<Rightarrow> nat \<Rightarrow> 'w \<Rightarrow> (store_error + ListResp) \<times> 'w"
  bucket_DelMulti :: "string list \<Rightarrow> 'w \<Rightarrow> store_error option \<times> 'w"
  io_ReadFull :: "nat \<Rightarrow> 'w \<Rightarrow> (byte list \<times> io_error option) \<times> 'w"
  reader_Close :: "'w \<Rightarrow> 'w"
  alloc_max :: nat

subsection \<open>Constants\<close>

definition minChunkSize :: u64 where
  "minChunkSize = 5 * 1024 * 1024"

definition listPartsMax :: nat where
  "listPartsMax = 1000"

text \<open>The bound of the Go runtime on one allocation on 64-bit Linux
  (\<open>runtime.maxAlloc\<close>, \<open>2 ^ 48\<close> bytes): the \<open>alloc_max\<close> of the in-memory store below.\<close>

definition maxAlloc :: nat where
  "maxAlloc = 2 ^ 48"

subsection \<open>Chunk size (WriteStream, lines 139-142)\<close>

text \<open>
  \<^verbatim>\<open>chunkSize := minChunkSize
  for size/chunkSize >= listPartsMax { chunkSize *= 2 }\<close>
  The loop, from any starting chunk size. Go panics on a division by zero, and
  \<open>chunkSize * 2\<close> is the wrapping product.
\<close>

function chunkSizeLoop :: "u64 \<Rightarrow> u64 \<Rightarrow> u64 outcome" where
  "chunkSizeLoop sz chunkSize =
     (if chunkSize = 0 then Panic DivideByZero
      else if sz div chunkSize \<ge> of_nat listPartsMax then chunkSizeLoop sz (chunkSize * 2)
      else Return chunkSize)"
  by pat_completeness auto

termination chunkSizeLoop
proof (relation "measure (\<lambda>(s, c). unat s - unat c)")
  show "wf (measure (\<lambda>(s :: u64, c :: u64). unat s - unat c))"
    by simp
next
  fix sz chunkSize :: u64
  assume nz: "chunkSize \<noteq> 0" and ge: "of_nat listPartsMax \<le> sz div chunkSize"
  have c0: "0 < unat chunkSize"
    using nz by (simp add: unat_gt_0)
  have "unat (of_nat listPartsMax :: u64) = 1000"
    by (simp add: listPartsMax_def)
  hence "1000 \<le> unat sz div unat chunkSize"
    using ge by (simp add: word_le_nat_alt unat_div)
  hence le: "1000 * unat chunkSize \<le> unat sz"
    using c0 by (simp add: less_eq_div_iff_mult_less_eq)
  have "unat sz < 2 ^ 64"
    using unsigned_less [of sz] by simp
  hence "2 * unat chunkSize < 2 ^ 64"
    using le by simp
  hence "unat (chunkSize * 2) = 2 * unat chunkSize"
    by (simp add: unat_word_ariths)
  hence "unat sz - unat (chunkSize * 2) < unat sz - unat chunkSize"
    using le c0 by linarith
  thus "((sz, chunkSize * 2), (sz, chunkSize)) \<in> measure (\<lambda>(s, c). unat s - unat c)"
    by simp
qed

text \<open>The equation of the loop is applied by hand, not as a rewrite rule.\<close>

declare chunkSizeLoop.simps [simp del]

definition deriveChunkSize :: "u64 \<Rightarrow> u64 outcome" where
  "deriveChunkSize sz = chunkSizeLoop sz minChunkSize"

subsection \<open>Session resolution (getHighestIDMulti, getAllParts, hasCode)\<close>

definition hasCode :: "store_error \<Rightarrow> string \<Rightarrow> bool" where
  "hasCode err code = (case err of AwsError c \<Rightarrow> c = code | _ \<Rightarrow> False)"

text \<open>The \<open>range\<close> loop of getHighestIDMulti over the listed sessions, with its two
  variables \<open>uploadID\<close> and \<open>multi\<close> (\<open>None\<close> is the nil pointer).\<close>

fun highestIDLoop :: "string \<Rightarrow> Multi list \<Rightarrow> string \<Rightarrow> Multi option \<Rightarrow> Multi option" where
  "highestIDLoop path [] uploadID multi = multi"
| "highestIDLoop path (m # ms) uploadID multi =
     (if Key m = path \<and> UploadId m \<ge> uploadID
      then highestIDLoop path ms (UploadId m) (Some m)
      else highestIDLoop path ms uploadID multi)"

definition getHighestIDMulti ::
  "'w Env \<Rightarrow> string \<Rightarrow> 'w \<Rightarrow> (Multi option \<times> error option) \<times> 'w" where
  "getHighestIDMulti E path w =
     (case bucket_ListMulti E path '''' w of
        ((multis, err), w1) \<Rightarrow>
          if (case err of None \<Rightarrow> False | Some e \<Rightarrow> \<not> hasCode e ''NoSuchUpload'')
          then ((None, map_option StoreError err), w1)
          else if length multis > 0
          then ((highestIDLoop path multis '''' None, None), w1)
          else (case bucket_InitMulti E path w1 of
                  (Inl e, w2) \<Rightarrow> ((None, Some (StoreError e)), w2)
                | (Inr m, w2) \<Rightarrow> ((Some m, None), w2)))"

text \<open>\<open>multi.ListParts()\<close> reads \<open>multi.UploadId\<close>: on the nil pointer that is a
  runtime panic.\<close>

definition getAllParts ::
  "'w Env \<Rightarrow> string \<Rightarrow> 'w \<Rightarrow> (Multi option \<times> Part list \<times> error option) outcome \<times> 'w" where
  "getAllParts E path w =
     (case getHighestIDMulti E path w of
        ((multi, err), w1) \<Rightarrow>
          if err \<noteq> None then (Return (None, [], err), w1)
          else (case multi of
                  None \<Rightarrow> (Panic NilDereference, w1)
                | Some m \<Rightarrow>
                    (case multi_ListParts E m w1 of
                       (Inl e, w2) \<Rightarrow> (Return (Some m, [], Some (StoreError e)), w2)
                     | (Inr parts, w2) \<Rightarrow> (Return (Some m, parts, None), w2))))"

subsection \<open>WriteStream\<close>

text \<open>The offset check of lines 151-153; the product is the \<open>uint64\<close> one.\<close>

definition invalidOffset :: "u64 \<Rightarrow> u64 \<Rightarrow> u64 \<Rightarrow> Part list \<Rightarrow> bool" where
  "invalidOffset offset sz chunkSize parts \<longleftrightarrow>
     offset > of_nat (length parts) * chunkSize \<or> (offset < sz \<and> offset mod chunkSize \<noteq> 0)"

text \<open>
  Lines 144-145 and 155-159: the part number, the running total and the known parts
  with which the streaming loop starts. \<open>partNumber\<close> is a Go \<open>int\<close> (64 bits
  wide; it stays far below its bound). Slicing \<open>parts[0 : partNumber-1]\<close> beyond the
  slice panics (the model keeps no capacity apart from the length).
\<close>

definition resumeState :: "u64 \<Rightarrow> u64 \<Rightarrow> Part list \<Rightarrow> (int \<times> u64 \<times> Part list) outcome" where
  "resumeState offset chunkSize parts =
     (if length parts > 0
      then (let partNumber = uint (offset div chunkSize) + 1
            in if nat (partNumber - 1) > length parts then Panic SliceBoundsOutOfRange
               else Return (partNumber, offset, take (nat (partNumber - 1)) parts))
      else Return (1, 0, parts))"

text \<open>
  The streaming loop of lines 162-184. It may run forever on a reader that never
  ends, so it is a partial function: \<open>None\<close> is "does not return". The value of
  \<open>multi.Complete(parts)\<close> is dropped, as in the source.
\<close>

partial_function (option) writeLoop ::
  "'w Env \<Rightarrow> Multi \<Rightarrow> u64 \<Rightarrow> u64 \<Rightarrow> int \<Rightarrow> u64 \<Rightarrow> Part list \<Rightarrow> 'w \<Rightarrow> (error option \<times> 'w) option" where
  "writeLoop E multi chunkSize sz partNumber totalRead parts w =
     (case io_ReadFull E (unat chunkSize) w of
        ((buf, err), w1) \<Rightarrow>
          (let bytesRead = length buf;
               totalRead' = totalRead + of_nat bytesRead
           in if (case err of None \<Rightarrow> False | Some e \<Rightarrow> e \<noteq> ErrUnexpectedEOF \<and> e \<noteq> EOF)
              then Some (map_option ReadError err, w1)
              else if (of_nat bytesRead :: u64) < chunkSize \<and> totalRead' \<noteq> sz
              then Some (None, w1)
              else (case multi_PutPart E multi partNumber buf w1 of
                      (Inl e, w2) \<Rightarrow> Some (Some (StoreError e), w2)
                    | (Inr part, w2) \<Rightarrow>
                        if totalRead' = sz
                        then (case multi_Complete E multi (parts @ [part]) w2 of
                                (_, w3) \<Rightarrow> Some (None, w3))
                        else writeLoop E multi chunkSize sz (partNumber + 1) totalRead'
                               (parts @ [part]) w2)))"

text \<open>The whole method. \<open>defer reader.Close()\<close> runs on every exit, a panic too.
  Line 161, \<open>buf := make([]byte, chunkSize)\<close>, comes after the resume state is set and
  before the first read: it panics when the chunk size is above what \<open>make\<close> allocates.\<close>

definition WriteStream ::
  "'w Env \<Rightarrow> string \<Rightarrow> u64 \<Rightarrow> u64 \<Rightarrow> 'w \<Rightarrow> (error option outcome \<times> 'w) option" where
  "WriteStream E path offset sz w =
     (case deriveChunkSize sz of
        Panic p \<Rightarrow> Some (Panic p, reader_Close E w)
      | Return chunkSize \<Rightarrow>
          (case getAllParts E path w of
             (Panic p, w1) \<Rightarrow> Some (Panic p, reader_Close E w1)
           | (Return (multi, parts, Some e), w1) \<Rightarrow> Some (Return (Some e), reader_Close E w1)
           | (Return (multi, parts, None), w1) \<Rightarrow>
               if invalidOffset offset sz chunkSize parts
               then Some (Return (Some (InvalidOffsetError path offset)), reader_Close E w1)
               else (case resumeState offset chunkSize parts of
                       Panic p \<Rightarrow> Some (Panic p, reader_Close E w1)
                     | Return (partNumber, totalRead, parts') \<Rightarrow>
                         if unat chunkSize > alloc_max E
                         then Some (Panic MakesliceLenOutOfRange, reader_Close E w1)
                         else (case multi of
                                 None \<Rightarrow> Some (Panic NilDereference, reader_Close E w1)
                               | Some m \<Rightarrow>
                                   map_option (\<lambda>(err, w2). (Return err, reader_Close E w2))
                                     (writeLoop E m chunkSize sz partNumber totalRead parts'
                                        w1)))))"

subsection \<open>CurrentSize\<close>

definition CurrentSize :: "'w Env \<Rightarrow> string \<Rightarrow> 'w \<Rightarrow> (u64 \<times> error option) outcome \<times> 'w" where
  "CurrentSize E path w =
     (case getAllParts E path w of
        (Panic p, w1) \<Rightarrow> (Panic p, w1)
      | (Return (multi, parts, Some e), w1) \<Rightarrow> (Return (0, Some e), w1)
      | (Return (multi, parts, None), w1) \<Rightarrow>
          if length parts = 0 then (Return (0, None), w1)
          else (Return ((of_nat (length parts) - 1) * of_int (Size (parts ! 0))
                          + of_int (Size (parts ! (length parts - 1))), None), w1))"

subsection \<open>List\<close>

text \<open>
  The pagination loop of lines 218-235, with the slices \<open>files\<close> and \<open>directories\<close>.
  \<open>commonPrefix[0:len(commonPrefix)-1]\<close> panics on an empty prefix. The loop runs as
  long as the store reports a truncated listing.
\<close>

partial_function (option) listLoop ::
  "'w Env \<Rightarrow> string \<Rightarrow> ListResp \<Rightarrow> string list \<Rightarrow> string list \<Rightarrow> 'w
     \<Rightarrow> ((string list \<times> error option) outcome \<times> 'w) option" where
  "listLoop E path listResponse files directories w =
     (let files' = files @ Contents listResponse
      in if [] \<in> set (CommonPrefixes listResponse) then Some (Panic SliceBoundsOutOfRange, w)
         else (let directories' = directories @ map butlast (CommonPrefixes listResponse)
               in if IsTruncated listResponse
                  then (case bucket_List E path ''/'' (NextMarker listResponse) listPartsMax w of
                          (Inl e, w1) \<Rightarrow> Some (Return ([], Some (StoreError e)), w1)
                        | (Inr r, w1) \<Rightarrow> listLoop E path r files' directories' w1)
                  else Some (Return (files' @ directories', None), w)))"

text \<open>\<open>path[len(path)-1]\<close> on the empty string is the index \<open>-1\<close>: a runtime panic.\<close>

definition List_s3 ::
  "'w Env \<Rightarrow> string \<Rightarrow> 'w \<Rightarrow> ((string list \<times> error option) outcome \<times> 'w) option" where
  "List_s3 E path w =
     (if length path = 0 then Some (Panic IndexOutOfRange, w)
      else (let path' = (if path ! (length path - 1) \<noteq> CHR ''/'' then path @ ''/'' else path)
            in case bucket_List E path' ''/'' '''' listPartsMax w of
                 (Inl e, w1) \<Rightarrow> Some (Return ([], Some (StoreError e)), w1)
               | (Inr listResponse, w1) \<Rightarrow> listLoop E path' listResponse [] [] w1))"

subsection \<open>Delete\<close>

text \<open>
  The loop of lines 263-277. \<open>s3Objects\<close> has \<open>listPartsMax\<close> elements, so a
  listing longer than that is an index out of range. When \<open>DelMulti\<close> fails the
  source returns \<open>nil\<close>.
\<close>

partial_function (option) deleteLoop ::
  "'w Env \<Rightarrow> string \<Rightarrow> ListResp \<Rightarrow> 'w \<Rightarrow> (error option outcome \<times> 'w) option" where
  "deleteLoop E path listResponse w =
     (if length (Contents listResponse) > 0
      then (if length (Contents listResponse) > listPartsMax then Some (Panic IndexOutOfRange, w)
            else (case bucket_DelMulti E (Contents listResponse) w of
                    (Some e, w1) \<Rightarrow> Some (Return None, w1)
                  | (None, w1) \<Rightarrow>
                      (case bucket_List E path '''' '''' listPartsMax w1 of
                         (Inl e, w2) \<Rightarrow> Some (Return (Some (StoreError e)), w2)
                       | (Inr r, w2) \<Rightarrow> deleteLoop E path r w2)))
      else Some (Return None, w))"

definition Delete :: "'w Env \<Rightarrow> string \<Rightarrow> 'w \<Rightarrow> (error option outcome \<times> 'w) option" where
  "Delete E path w =
     (case bucket_List E path '''' '''' listPartsMax w of
        (Inl e, w1) \<Rightarrow> Some (Return (Some (PathNotFoundError path)), w1)
      | (Inr listResponse, w1) \<Rightarrow>
          if length (Contents listResponse) = 0
          then Some (Return (Some (PathNotFoundError path)), w1)
          else deleteLoop E path listResponse w1)"

subsection \<open>Part counts\<close>

text \<open>The number of parts of size \<open>c\<close> that \<open>s\<close> bytes need: \<open>s / c\<close> rounded up.\<close>

definition ceilDiv :: "nat \<Rightarrow> nat \<Rightarrow> nat" where
  "ceilDiv s c = (s + c - 1) div c"

subsection \<open>Iterations of the streaming loop\<close>

text \<open>
  One pass through the body of the streaming loop that goes on to the next pass: the
  read ends without a fatal error, the buffer is uploaded, and the running total is
  not yet the declared size. The state is \<open>(partNumber, totalRead, parts, world)\<close>.
\<close>

inductive loopIter ::
  "'w Env \<Rightarrow> Multi \<Rightarrow> u64 \<Rightarrow> u64 \<Rightarrow> int \<times> u64 \<times> Part list \<times> 'w \<Rightarrow> int \<times> u64 \<times> Part list \<times> 'w \<Rightarrow> bool"
  for E :: "'w Env" and multi :: Multi and chunkSize :: u64 and sz :: u64 where
  next_part:
    "io_ReadFull E (unat chunkSize) w = ((buf, err), w1) \<Longrightarrow>
     err = None \<or> err = Some ErrUnexpectedEOF \<or> err = Some EOF \<Longrightarrow>
     \<not> ((of_nat (length buf) :: u64) < chunkSize \<and> totalRead + of_nat (length buf) \<noteq> sz) \<Longrightarrow>
     multi_PutPart E multi partNumber buf w1 = (Inr part, w2) \<Longrightarrow>
     totalRead + of_nat (length buf) \<noteq> sz \<Longrightarrow>
     loopIter E multi chunkSize sz (partNumber, totalRead, parts, w)
       (partNumber + 1, totalRead + of_nat (length buf), parts @ [part], w2)"

subsection \<open>An in-memory store\<close>

text \<open>
  A store and a reader to run the driver on: the open multipart sessions in listing
  order, the parts of each session by upload identifier (sorted by part number, a part
  uploaded again replaces the old one), the bytes the reader still holds and the error
  with which it ends after them (\<open>None\<close>: a plain end of stream), and a log of the
  \<open>PutPart\<close> calls (part number and length) and of the completed sessions. The
  entity tag of a part is left empty. Object listing and batch deletion are not
  served: they report a transport error. Buffers are allocated up to \<open>maxAlloc\<close>.
\<close>

record mem =
  m_sessions :: "Multi list"
  m_parts :: "string \<Rightarrow> Part list"
  m_input :: "byte list"
  m_read_error :: "io_error option"
  m_puts :: "(int \<times> nat) list"
  m_completed :: "(string \<times> Part list) list"
  m_closed :: bool

definition mem_ReadFull :: "nat \<Rightarrow> mem \<Rightarrow> (byte list \<times> io_error option) \<times> mem" where
  "mem_ReadFull n w =
     (if n \<le> length (m_input w)
      then ((take n (m_input w), None), w\<lparr>m_input := drop n (m_input w)\<rparr>)
      else ((m_input w,
             Some (case m_read_error w of
                     Some e \<Rightarrow> e
                   | None \<Rightarrow> if m_input w = [] then EOF else ErrUnexpectedEOF)),
            w\<lparr>m_input := []\<rparr>))"

definition mem_ListMulti ::
  "string \<Rightarrow> string \<Rightarrow> mem \<Rightarrow> (Multi list \<times> store_error option) \<times> mem" where
  "mem_ListMulti prefix delim w =
     ((filter (\<lambda>m. take (length prefix) (Key m) = prefix) (m_sessions w), None), w)"

definition mem_InitMulti :: "string \<Rightarrow> mem \<Rightarrow> (store_error + Multi) \<times> mem" where
  "mem_InitMulti key w =
     (let m = \<lparr>Key = key,
                UploadId = replicate (Suc (length (m_sessions w) + length (m_completed w))) CHR ''u''\<rparr>
      in (Inr m, w\<lparr>m_sessions := m_sessions w @ [m]\<rparr>))"

definition mem_ListParts :: "Multi \<Rightarrow> mem \<Rightarrow> (store_error + Part list) \<times> mem" where
  "mem_ListParts m w =
     (if m \<in> set (m_sessions w) then (Inr (m_parts w (UploadId m)), w)
      else (Inl (S3Error ''NoSuchUpload''), w))"

definition mem_PutPart :: "Multi \<Rightarrow> int \<Rightarrow> byte list \<Rightarrow> mem \<Rightarrow> (store_error + Part) \<times> mem" where
  "mem_PutPart m n buf w =
     (if m \<in> set (m_sessions w)
      then (let part = \<lparr>PartN = n, ETag = '''', Size = int (length buf)\<rparr>
            in (Inr part,
                w\<lparr>m_parts := (m_parts w)
                     (UploadId m :=
                        insort_key PartN part
                          (filter (\<lambda>q. PartN q \<noteq> n) (m_parts w (UploadId m)))),
                  m_puts := m_puts w @ [(n, length buf)]\<rparr>))
      else (Inl (S3Error ''NoSuchUpload''), w))"

definition mem_Complete :: "Multi \<Rightarrow> Part list \<Rightarrow> mem \<Rightarrow> store_error option \<times> mem" where
  "mem_Complete m parts w =
     (if m \<in> set (m_sessions w)
      then (None, w\<lparr>m_sessions := removeAll m (m_sessions w),
                    m_completed := m_completed w @ [(UploadId m, parts)]\<rparr>)
      else (Some (S3Error ''NoSuchUpload''), w))"

definition mem_env :: "mem Env" where
  "mem_env =
     \<lparr>bucket_ListMulti = mem_ListMulti,
      bucket_InitMulti = mem_InitMulti,
      multi_ListParts = mem_ListParts,
      multi_PutPart = mem_PutPart,
      multi_Complete = mem_Complete,
      bucket_List = (\<lambda>prefix delim marker mx w. (Inl (TransportError ''not served''), w)),
      bucket_DelMulti = (\<lambda>keys w. (Some (TransportError ''not served''), w)),
      io_ReadFull = mem_ReadFull,
      reader_Close = (\<lambda>w. w\<lparr>m_closed := True\<rparr>),
      alloc_max = maxAlloc\<rparr>"

text \<open>The part that the store keeps for an upload of \<open>len\<close> bytes under the number
  \<open>n\<close>; the empty store with a reader that holds \<open>input\<close>; and a store in which one
  session for \<open>path\<close> is open and holds parts of the given sizes, numbered from 1.\<close>

definition mem_part :: "nat \<Rightarrow> nat \<Rightarrow> Part" where
  "mem_part len n = \<lparr>PartN = int n, ETag = '''', Size = int len\<rparr>"

definition mem_init :: "byte list \<Rightarrow> mem" where
  "mem_init input =
     \<lparr>m_sessions = [], m_parts = (\<lambda>uploadId. []), m_input = input, m_read_error = None,
      m_puts = [], m_completed = [], m_closed = False\<rparr>"

definition mem_session :: "string \<Rightarrow> nat list \<Rightarrow> byte list \<Rightarrow> mem" where
  "mem_session path sizes input =
     \<lparr>m_sessions = [\<lparr>Key = path, UploadId = ''u''\<rparr>],
      m_parts = (\<lambda>uploadId. if uploadId = ''u''
                   then map (\<lambda>(n, len). mem_part len n) (enumerate 1 sizes) else []),
      m_input = input, m_read_error = None, m_puts = [], m_completed = [], m_closed = False\<rparr>"

text \<open>The store while an object is written in whole chunks: one open session, its
  first \<open>k\<close> parts of \<open>c\<close> bytes each, of which those after the first \<open>k0\<close> were
  uploaded, and logged, by the call that is running.\<close>

definition chunks_written :: "string \<Rightarrow> nat \<Rightarrow> nat \<Rightarrow> nat \<Rightarrow> mem \<Rightarrow> bool" where
  "chunks_written path c k0 k w \<longleftrightarrow>
     k0 \<le> k
     \<and> m_sessions w = [\<lparr>Key = path, UploadId = ''u''\<rparr>]
     \<and> m_parts w ''u'' = map (mem_part c) [1..<Suc k]
     \<and> m_puts w = map (\<lambda>n. (int n, c)) [Suc k0..<Suc k]
     \<and> m_read_error w = None"

section \<open>Properties\<close>

subsection \<open>Unfolding the definitions\<close>

lemmas mem_defs = mem_env_def mem_init_def mem_ReadFull_def mem_ListMulti_def
  mem_InitMulti_def mem_ListParts_def mem_PutPart_def mem_Complete_def mem_session_def
  mem_part_def maxAlloc_def

lemmas driver_defs = WriteStream_def getAllParts_def getHighestIDMulti_def invalidOffset_def
  resumeState_def hasCode_def

lemmas eval_defs = Let_def driver_defs mem_defs deriveChunkSize_def chunkSizeLoop.simps
  minChunkSize_def listPartsMax_def writeLoop.simps

subsection \<open>The chunk size\<close>

lemma double_no_wrap:
  fixes c s :: u64
  assumes "c \<noteq> 0" and "of_nat listPartsMax \<le> s div c"
  shows "unat (c * 2) = 2 * unat c" and "1000 * unat c \<le> unat s" and "0 < unat c"
proof -
  show c0: "0 < unat c"
    using assms(1) by (simp add: unat_gt_0)
  have "unat (of_nat listPartsMax :: u64) = 1000"
    by (simp add: listPartsMax_def)
  hence "1000 \<le> unat s div unat c"
    using assms(2) by (simp add: word_le_nat_alt unat_div)
  thus le: "1000 * unat c \<le> unat s"
    using c0 by (simp add: less_eq_div_iff_mult_less_eq)
  have "unat s < 2 ^ 64"
    using unsigned_less [of s] by simp
  hence "2 * unat c < 2 ^ 64"
    using le by simp
  thus "unat (c * 2) = 2 * unat c"
    by (simp add: unat_word_ariths)
qed

lemma double_nonzero:
  fixes c s :: u64
  assumes "c \<noteq> 0" and "of_nat listPartsMax \<le> s div c"
  shows "c * 2 \<noteq> 0"
proof
  assume "c * 2 = 0"
  hence "unat (c * 2) = 0" by simp
  thus False
    using double_no_wrap(1,3) [OF assms] by simp
qed

lemma chunkSizeLoop_post:
  "c \<noteq> 0 \<Longrightarrow> \<exists>C. chunkSizeLoop s c = Return C \<and> c \<le> C \<and> unat s div unat C < 1000"
proof (induction s c rule: chunkSizeLoop.induct)
  case (1 sz chunkSize)
  show ?case
  proof (cases "of_nat listPartsMax \<le> sz div chunkSize")
    case True
    note dbl = double_no_wrap [OF "1.prems" True]
    have nz: "chunkSize * 2 \<noteq> 0"
      using "1.prems" True by (rule double_nonzero)
    from "1.IH" [OF "1.prems" True nz] obtain C where
      C: "chunkSizeLoop sz (chunkSize * 2) = Return C" "chunkSize * 2 \<le> C"
         "unat sz div unat C < 1000"
      by blast
    have "unat chunkSize \<le> unat (chunkSize * 2)"
      using dbl(1) by simp
    hence "chunkSize \<le> chunkSize * 2"
      by (simp add: word_le_nat_alt)
    hence "chunkSize \<le> C"
      using C(2) by simp
    moreover have "chunkSizeLoop sz chunkSize = Return C"
      using "1.prems" True C(1) by (simp add: chunkSizeLoop.simps [of sz chunkSize])
    ultimately show ?thesis
      using C(3) by blast
  next
    case False
    have "unat (of_nat listPartsMax :: u64) = 1000"
      by (simp add: listPartsMax_def)
    hence "unat sz div unat chunkSize < 1000"
      using False by (simp add: word_le_nat_alt unat_div not_le)
    moreover have "chunkSizeLoop sz chunkSize = Return chunkSize"
      using "1.prems" False by (simp add: chunkSizeLoop.simps [of sz chunkSize])
    ultimately show ?thesis
      by simp
  qed
qed

lemma minChunkSize_nz: "minChunkSize \<noteq> 0" and unat_minChunkSize: "unat minChunkSize = 5242880"
  by (simp_all add: minChunkSize_def)

lemma ceilDiv_le:
  assumes "0 < c" and "s div c < m"
  shows "ceilDiv s c \<le> m"
proof -
  have "s < m * c"
    using assms by (metis div_less_iff_less_mult mult.commute)
  hence "s + c - 1 < (m + 1) * c"
    using assms(1) by simp
  hence "(s + c - 1) div c < m + 1"
    using assms(1) by (simp add: div_less_iff_less_mult)
  thus ?thesis
    by (simp add: ceilDiv_def)
qed

lemma deriveChunkSize_returns:
  "\<exists>C. deriveChunkSize S = Return C \<and> minChunkSize \<le> C \<and> unat S div unat C < 1000"
  unfolding deriveChunkSize_def by (rule chunkSizeLoop_post [OF minChunkSize_nz])

text \<open>
  C1. For every declared size \<open>S\<close> the doubling loop at the start of WriteStream ends
  and yields a chunk size \<open>C\<close> that is at least \<open>minChunkSize\<close> and for which
  \<open>S / C\<close>, rounded up, is at most \<open>listPartsMax\<close>, 1000. The chunk size is a function
  of \<open>S\<close> and of the two constants alone, so the same \<open>S\<close> always gives the same \<open>C\<close>.
\<close>

theorem deriveChunkSize_bounds:
  "\<exists>C. deriveChunkSize S = Return C \<and> minChunkSize \<le> C
       \<and> ceilDiv (unat S) (unat C) \<le> listPartsMax"
proof -
  from deriveChunkSize_returns [of S] obtain C where
    C: "deriveChunkSize S = Return C" "minChunkSize \<le> C" "unat S div unat C < 1000"
    by blast
  have "0 < unat C"
    using C(2) unat_minChunkSize by (simp add: word_le_nat_alt)
  hence "ceilDiv (unat S) (unat C) \<le> 1000"
    using C(3) by (rule ceilDiv_le)
  thus ?thesis
    using C(1,2) by (simp add: listPartsMax_def)
qed

lemma chunkSizeLoop_least:
  "c \<noteq> 0 \<Longrightarrow> chunkSizeLoop s c = Return C \<Longrightarrow>
     \<exists>k. unat C = unat c * 2 ^ k \<and> unat s div unat C < listPartsMax
          \<and> (\<forall>j<k. listPartsMax \<le> unat s div (unat c * 2 ^ j))"
proof (induction s c rule: chunkSizeLoop.induct)
  case (1 sz chunkSize)
  have lpm: "unat (of_nat listPartsMax :: u64) = listPartsMax"
    by (simp add: listPartsMax_def)
  show ?case
  proof (cases "of_nat listPartsMax \<le> sz div chunkSize")
    case True
    note dbl = double_no_wrap [OF "1.prems"(1) True]
    have nz: "chunkSize * 2 \<noteq> 0"
      using "1.prems"(1) True by (rule double_nonzero)
    have "chunkSizeLoop sz (chunkSize * 2) = Return C"
      using "1.prems" True by (simp add: chunkSizeLoop.simps [of sz chunkSize])
    from "1.IH" [OF "1.prems"(1) True nz this] obtain k where
      k: "unat C = unat (chunkSize * 2) * 2 ^ k" "unat sz div unat C < listPartsMax"
         "\<forall>j<k. listPartsMax \<le> unat sz div (unat (chunkSize * 2) * 2 ^ j)"
      by blast
    have here: "listPartsMax \<le> unat sz div unat chunkSize"
      using True lpm by (simp add: word_le_nat_alt unat_div)
    have "unat C = unat chunkSize * 2 ^ Suc k"
      using k(1) dbl(1) by simp
    moreover have "\<forall>j<Suc k. listPartsMax \<le> unat sz div (unat chunkSize * 2 ^ j)"
    proof (intro allI impI)
      fix j assume j: "j < Suc k"
      show "listPartsMax \<le> unat sz div (unat chunkSize * 2 ^ j)"
      proof (cases j)
        case 0
        then show ?thesis using here by simp
      next
        case (Suc i)
        hence "i < k" using j by simp
        hence "listPartsMax \<le> unat sz div (unat (chunkSize * 2) * 2 ^ i)"
          using k(3) by blast
        moreover have "unat (chunkSize * 2) * 2 ^ i = unat chunkSize * 2 ^ j"
          using Suc dbl(1) by simp
        ultimately show ?thesis by simp
      qed
    qed
    ultimately show ?thesis using k(2) by blast
  next
    case False
    hence "C = chunkSize"
      using "1.prems" by (simp add: chunkSizeLoop.simps [of sz chunkSize])
    moreover have "unat sz div unat chunkSize < listPartsMax"
      using False lpm by (simp add: word_le_nat_alt unat_div not_le)
    ultimately have "unat C = unat chunkSize * 2 ^ 0 \<and> unat sz div unat C < listPartsMax
          \<and> (\<forall>j<(0::nat). listPartsMax \<le> unat sz div (unat chunkSize * 2 ^ j))"
      by simp
    thus ?thesis by blast
  qed
qed

text \<open>
  C6, as the claim states it, fails: for \<open>S = 1000 * minChunkSize\<close> the loop doubles
  once and yields 10 MB, although the minimum itself, 5 MB, already gives exactly
  1000 parts.
\<close>

theorem deriveChunkSize_not_least_counterexample:
  "deriveChunkSize 5242880000 = Return 10485760
   \<and> unat minChunkSize * 2 ^ 0 < unat (10485760 :: u64)
   \<and> ceilDiv (unat (5242880000 :: u64)) (unat minChunkSize * 2 ^ 0) \<le> listPartsMax"
  by (simp add: deriveChunkSize_def chunkSizeLoop.simps minChunkSize_def listPartsMax_def
        ceilDiv_def)

text \<open>
  C6, amended. For every declared size \<open>S\<close> the chunk size \<open>C\<close> chosen by the doubling
  loop is \<open>minChunkSize * 2 ^ k\<close> for some \<open>k\<close>, the quotient \<open>S / C\<close> rounded down
  is below \<open>listPartsMax\<close>, and no smaller \<open>minChunkSize * 2 ^ j\<close> has that property:
  \<open>C\<close> is the smallest such chunk size that keeps the rounded-down quotient under 1000.
\<close>

theorem deriveChunkSize_least:
  "\<exists>C k. deriveChunkSize S = Return C \<and> unat C = unat minChunkSize * 2 ^ k
      \<and> unat S div unat C < listPartsMax
      \<and> (\<forall>j<k. \<not> unat S div (unat minChunkSize * 2 ^ j) < listPartsMax)"
proof -
  from deriveChunkSize_returns [of S] obtain C where
    C: "chunkSizeLoop S minChunkSize = Return C"
    unfolding deriveChunkSize_def by blast
  from chunkSizeLoop_least [OF minChunkSize_nz C] obtain k where
    "unat C = unat minChunkSize * 2 ^ k" "unat S div unat C < listPartsMax"
    "\<forall>j<k. listPartsMax \<le> unat S div (unat minChunkSize * 2 ^ j)"
    by blast
  thus ?thesis
    using C unfolding deriveChunkSize_def not_less by blast
qed

text \<open>At \<open>S = 1000 * minChunkSize\<close> the loop doubles once: \<open>k = 1\<close>, and the chunk size
  below, the minimum itself, leaves the quotient at 1000.\<close>

theorem deriveChunkSize_least_witness:
  "\<exists>C k. deriveChunkSize 5242880000 = Return C \<and> C = 10485760 \<and> k = 1
      \<and> unat C = unat minChunkSize * 2 ^ k
      \<and> unat (5242880000 :: u64) div unat C < listPartsMax
      \<and> (0::nat) < k
      \<and> \<not> unat (5242880000 :: u64) div (unat minChunkSize * 2 ^ 0) < listPartsMax"
  using deriveChunkSize_least [of 5242880000]
  by (simp add: deriveChunkSize_def chunkSizeLoop.simps minChunkSize_def listPartsMax_def)

subsection \<open>The offset check\<close>

lemma writeLoop_no_InvalidOffset:
  assumes "writeLoop E multi chunkSize sz partNumber totalRead parts w = Some y"
  shows "fst y \<noteq> Some (InvalidOffsetError p off)"
proof (rule writeLoop.raw_induct
    [where P = "\<lambda>E multi chunkSize sz partNumber totalRead parts w y.
                  fst y \<noteq> Some (InvalidOffsetError p off)", OF _ assms], goal_cases)
  case (1 f E multi chunkSize sz partNumber totalRead parts w y)
  from "1"(2) show ?case
    by (auto simp: Let_def dest: "1"(1) split: prod.splits if_splits sum.splits option.splits)
qed

lemma getHighestIDMulti_error:
  "getHighestIDMulti E path w = ((multi, Some e), w1) \<Longrightarrow> \<exists>se. e = StoreError se"
  by (auto simp: getHighestIDMulti_def split: prod.splits if_splits sum.splits option.splits)

lemma getAllParts_error:
  "getAllParts E path w = (Return (multi, parts, Some e), w1) \<Longrightarrow> \<exists>se. e = StoreError se"
  by (auto simp: getAllParts_def dest: getHighestIDMulti_error
      split: prod.splits if_splits sum.splits option.splits)

text \<open>
  C2. WriteStream returns an InvalidOffsetError exactly when the session and its parts
  were obtained and the offset is above \<open>len(parts) * chunkSize\<close> (the product as Go
  computes it, in \<open>uint64\<close>), or is below the declared size and not a multiple of the
  chunk size derived for that size. The error then carries the path and the offset of
  the call. In particular every offset below the size that is not a multiple of the
  chunk size is refused with InvalidOffsetError.
\<close>

theorem WriteStream_InvalidOffset_iff:
  "((\<exists>p off w'. WriteStream E path offset sz w
        = Some (Return (Some (InvalidOffsetError p off)), w'))
     \<longleftrightarrow> (\<exists>chunkSize multi parts w1.
            deriveChunkSize sz = Return chunkSize
          \<and> getAllParts E path w = (Return (multi, parts, None), w1)
          \<and> (offset > of_nat (length parts) * chunkSize
               \<or> (offset < sz \<and> offset mod chunkSize \<noteq> 0))))
   \<and> ((\<exists>p off w'. WriteStream E path offset sz w
        = Some (Return (Some (InvalidOffsetError p off)), w'))
     \<longleftrightarrow> (\<exists>w'. WriteStream E path offset sz w
        = Some (Return (Some (InvalidOffsetError path offset)), w')))"
proof -
  let ?any = "\<exists>p off w'. WriteStream E path offset sz w
        = Some (Return (Some (InvalidOffsetError p off)), w')"
  let ?exact = "\<exists>w'. WriteStream E path offset sz w
        = Some (Return (Some (InvalidOffsetError path offset)), w')"
  let ?cond = "\<exists>chunkSize multi parts w1.
            deriveChunkSize sz = Return chunkSize
          \<and> getAllParts E path w = (Return (multi, parts, None), w1)
          \<and> (offset > of_nat (length parts) * chunkSize
               \<or> (offset < sz \<and> offset mod chunkSize \<noteq> 0))"
  from deriveChunkSize_returns [of sz] obtain C where C: "deriveChunkSize sz = Return C"
    by blast
  have fwd: "?cond \<Longrightarrow> ?exact"
  proof -
    assume ?cond
    then obtain multi parts w1 where
      g: "getAllParts E path w = (Return (multi, parts, None), w1)" and
      c: "offset > of_nat (length parts) * C \<or> (offset < sz \<and> offset mod C \<noteq> 0)"
      using C by auto
    have "WriteStream E path offset sz w
            = Some (Return (Some (InvalidOffsetError path offset)), reader_Close E w1)"
      using C g c by (simp add: WriteStream_def invalidOffset_def)
    thus ?exact by blast
  qed
  have bwd: "?any \<Longrightarrow> ?cond"
  proof -
    assume ?any
    then obtain p off w' where
      ws: "WriteStream E path offset sz w = Some (Return (Some (InvalidOffsetError p off)), w')"
      by blast
    obtain r w1 where g: "getAllParts E path w = (r, w1)"
      by (cases "getAllParts E path w")
    show ?cond
    proof (cases r)
      case (Panic x)
      with ws C g show ?thesis by (simp add: WriteStream_def)
    next
      case (Return t)
      obtain multi parts err where t: "t = (multi, parts, err)"
        by (cases t)
      show ?thesis
      proof (cases err)
        case (Some e)
        with getAllParts_error [of E path w multi parts e w1] g Return t
        obtain se where "e = StoreError se" by auto
        with ws C g Return t Some show ?thesis by (simp add: WriteStream_def)
      next
        case None
        show ?thesis
        proof (cases "invalidOffset offset sz C parts")
          case True
          with C g Return t None show ?thesis by (auto simp: invalidOffset_def)
        next
          case False
          have False
          proof (cases "resumeState offset C parts")
            case (Panic x)
            with ws C g Return t None False show False by (simp add: WriteStream_def)
          next
            case st: (Return s)
            obtain pn tr ps where s: "s = (pn, tr, ps)" by (cases s)
            show False
            proof (cases multi)
              case None
              with ws C g Return t \<open>err = None\<close> False st s show False
                by (simp add: WriteStream_def split: if_splits)
            next
              case (Some m)
              with ws C g Return t \<open>err = None\<close> False st s
              obtain y where "writeLoop E m C sz pn tr ps w1 = Some y"
                "fst y = Some (InvalidOffsetError p off)"
                by (auto simp: WriteStream_def split: if_splits)
              thus False using writeLoop_no_InvalidOffset [of E m C sz pn tr ps w1 y p off] by simp
            qed
          qed
          thus ?thesis ..
        qed
      qed
    qed
  qed
  have "?exact \<Longrightarrow> ?any" by blast
  with fwd bwd show ?thesis by blast
qed

text \<open>An offset of 100 bytes into an object of 12 MB with one part of 5 MB uploaded:
  below the size, not a multiple of 5 MB, refused.\<close>

theorem WriteStream_InvalidOffset_iff_witness:
  "deriveChunkSize 12582912 = Return 5242880
   \<and> getAllParts mem_env ''a/b'' (mem_session ''a/b'' [5242880] [])
        = (Return (Some \<lparr>Key = ''a/b'', UploadId = ''u''\<rparr>, [mem_part 5242880 1], None),
           mem_session ''a/b'' [5242880] [])
   \<and> (100 :: u64) < 12582912 \<and> (100 :: u64) mod 5242880 \<noteq> 0
   \<and> (\<exists>w'. WriteStream mem_env ''a/b'' 100 12582912 (mem_session ''a/b'' [5242880] [])
        = Some (Return (Some (InvalidOffsetError ''a/b'' 100)), w'))"
proof -
  have c: "deriveChunkSize 12582912 = Return 5242880"
    by (simp add: eval_defs)
  have g: "getAllParts mem_env ''a/b'' (mem_session ''a/b'' [5242880] [])
        = (Return (Some \<lparr>Key = ''a/b'', UploadId = ''u''\<rparr>, [mem_part 5242880 1], None),
           mem_session ''a/b'' [5242880] [])"
    by (simp add: eval_defs)
  have o: "(100 :: u64) < 12582912 \<and> (100 :: u64) mod 5242880 \<noteq> 0"
    by simp
  from c g o have "\<exists>chunkSize multi parts w1.
            deriveChunkSize 12582912 = Return chunkSize
          \<and> getAllParts mem_env ''a/b'' (mem_session ''a/b'' [5242880] [])
               = (Return (multi, parts, None), w1)
          \<and> (100 > of_nat (length parts) * chunkSize
               \<or> ((100 :: u64) < 12582912 \<and> 100 mod chunkSize \<noteq> 0))"
    by blast
  with WriteStream_InvalidOffset_iff
    [of mem_env "''a/b''" 100 12582912 "mem_session ''a/b'' [5242880] []"]
  have r: "\<exists>w'. WriteStream mem_env ''a/b'' 100 12582912 (mem_session ''a/b'' [5242880] [])
        = Some (Return (Some (InvalidOffsetError ''a/b'' 100)), w')"
    by blast
  from o have o1: "(100 :: u64) < 12582912" and o2: "(100 :: u64) mod 5242880 \<noteq> 0"
    by simp_all
  show ?thesis
    by (intro conjI c g o1 o2 r)
qed

subsection \<open>Resuming\<close>

lemma valid_offset_parts:
  assumes "\<not> invalidOffset offset sz chunkSize parts" and "chunkSize \<noteq> 0"
  shows "unat (offset div chunkSize) \<le> length parts"
proof -
  have c0: "0 < unat chunkSize"
    using assms(2) by (simp add: unat_gt_0)
  have "offset \<le> of_nat (length parts) * chunkSize"
    using assms(1) by (simp add: invalidOffset_def not_less)
  hence "unat offset \<le> unat (of_nat (length parts) * chunkSize :: u64)"
    by (simp add: word_le_nat_alt)
  also have "\<dots> \<le> unat (of_nat (length parts) :: u64) * unat chunkSize"
    by (simp add: unat_word_ariths)
  also have "\<dots> \<le> length parts * unat chunkSize"
    by (simp add: unat_of_nat)
  finally have "unat offset div unat chunkSize \<le> length parts"
    using c0 by (metis div_le_mono div_mult_self_is_m)
  thus ?thesis
    by (simp add: unat_div)
qed

lemma resumeState_valid:
  assumes "\<not> invalidOffset offset sz chunkSize parts" and "chunkSize \<noteq> 0" and "parts \<noteq> []"
  shows "resumeState offset chunkSize parts
           = Return (uint (offset div chunkSize) + 1, offset,
                     take (unat (offset div chunkSize)) parts)"
  using valid_offset_parts [OF assms(1,2)] assms(3)
  by (simp add: resumeState_def Let_def)

lemma deriveChunkSize_nonzero: "deriveChunkSize sz = Return chunkSize \<Longrightarrow> chunkSize \<noteq> 0"
  using deriveChunkSize_returns [of sz] minChunkSize_nz
  by (auto simp: word_le_nat_alt unat_minChunkSize)

lemma WriteStream_resumes:
  assumes "deriveChunkSize sz = Return chunkSize"
    and "getAllParts E path w = (Return (Some multi, parts, None), w1)"
    and "parts \<noteq> []"
    and "\<not> invalidOffset offset sz chunkSize parts"
  shows "WriteStream E path offset sz w
           = (if unat chunkSize > alloc_max E
              then Some (Panic MakesliceLenOutOfRange, reader_Close E w1)
              else map_option (\<lambda>(err, w2). (Return err, reader_Close E w2))
                     (writeLoop E multi chunkSize sz (uint (offset div chunkSize) + 1) offset
                        (take (unat (offset div chunkSize)) parts) w1))"
  using assms resumeState_valid [OF assms(4) deriveChunkSize_nonzero [OF assms(1)] assms(3)]
  by (simp add: WriteStream_def)

lemma deriveChunkSize_12MB: "deriveChunkSize (12 * 1024 * 1024) = Return (5 * 1024 * 1024)"
  by (simp add: deriveChunkSize_def chunkSizeLoop.simps minChunkSize_def listPartsMax_def)

lemma first_write_12MB:
  assumes "length input = 12 * 1024 * 1024"
  shows "map_option (\<lambda>(r, w'). (r, m_puts w', m_completed w'))
           (WriteStream mem_env path 0 (12 * 1024 * 1024) (mem_init input))
         = Some (Return None,
              [(1, 5 * 1024 * 1024), (2, 5 * 1024 * 1024), (3, 2 * 1024 * 1024)],
              [(''u'', [mem_part (5 * 1024 * 1024) 1, mem_part (5 * 1024 * 1024) 2,
                       mem_part (2 * 1024 * 1024) 3])])"
  using assms
  apply (simp add: Let_def driver_defs mem_defs deriveChunkSize_def chunkSizeLoop.simps
      minChunkSize_def listPartsMax_def)
  apply (subst writeLoop.simps)
  apply (simp add: Let_def mem_defs)
  apply (subst writeLoop.simps)
  apply (simp add: Let_def mem_defs)
  apply (subst writeLoop.simps)
  apply (simp add: Let_def mem_defs)
  done

lemma resumed_write_12MB:
  assumes "length rest = 2 * 1024 * 1024"
  shows "map_option (\<lambda>(r, w'). (r, m_puts w', m_completed w'))
           (WriteStream mem_env path (10 * 1024 * 1024) (12 * 1024 * 1024)
              (mem_session path [5 * 1024 * 1024, 5 * 1024 * 1024] rest))
         = Some (Return None, [(3, 2 * 1024 * 1024)],
              [(''u'', [mem_part (5 * 1024 * 1024) 1, mem_part (5 * 1024 * 1024) 2,
                       mem_part (2 * 1024 * 1024) 3])])"
  using assms
  apply (simp add: Let_def driver_defs mem_defs deriveChunkSize_def chunkSizeLoop.simps
      minChunkSize_def listPartsMax_def)
  apply (subst writeLoop.simps)
  apply (simp add: Let_def mem_defs)
  done

text \<open>
  C3. When the session has parts and the offset passes the check, WriteStream sets
  the part number to \<open>offset / chunkSize + 1\<close>, the running total to \<open>offset\<close>, and
  the known parts to their first \<open>offset / chunkSize\<close>, and goes into the streaming
  loop in that state, unless the chunk size is above what \<open>make\<close> allocates: then the
  call panics at line 161, before any read or upload.
  For a declared size of 12 MB the chunk size is 5 MB. On the in-memory store a first
  write of 12 MB uploads the parts 1, 2 and 3, of 5, 5 and 2 MB; a write resumed at the
  offset 10 MB over two parts of 5 MB uploads part 3 alone and completes the session
  with the three parts.
\<close>

theorem WriteStream_resume:
  "(deriveChunkSize sz = Return chunkSize
      \<and> getAllParts E path w = (Return (Some multi, parts, None), w1)
      \<and> parts \<noteq> [] \<and> \<not> invalidOffset offset sz chunkSize parts
    \<longrightarrow> resumeState offset chunkSize parts
          = Return (uint (offset div chunkSize) + 1, offset,
                    take (unat (offset div chunkSize)) parts)
        \<and> WriteStream E path offset sz w
          = (if unat chunkSize > alloc_max E
             then Some (Panic MakesliceLenOutOfRange, reader_Close E w1)
             else map_option (\<lambda>(err, w2). (Return err, reader_Close E w2))
                    (writeLoop E multi chunkSize sz (uint (offset div chunkSize) + 1) offset
                       (take (unat (offset div chunkSize)) parts) w1)))
   \<and> deriveChunkSize (12 * 1024 * 1024) = Return (5 * 1024 * 1024)
   \<and> (length input = 12 * 1024 * 1024
        \<longrightarrow> map_option (\<lambda>(r, w'). (r, m_puts w', m_completed w'))
              (WriteStream mem_env path' 0 (12 * 1024 * 1024) (mem_init input))
            = Some (Return None,
                 [(1, 5 * 1024 * 1024), (2, 5 * 1024 * 1024), (3, 2 * 1024 * 1024)],
                 [(''u'', [mem_part (5 * 1024 * 1024) 1, mem_part (5 * 1024 * 1024) 2,
                          mem_part (2 * 1024 * 1024) 3])]))
   \<and> (length rest = 2 * 1024 * 1024
        \<longrightarrow> map_option (\<lambda>(r, w'). (r, m_puts w', m_completed w'))
              (WriteStream mem_env path' (10 * 1024 * 1024) (12 * 1024 * 1024)
                 (mem_session path' [5 * 1024 * 1024, 5 * 1024 * 1024] rest))
            = Some (Return None, [(3, 2 * 1024 * 1024)],
                 [(''u'', [mem_part (5 * 1024 * 1024) 1, mem_part (5 * 1024 * 1024) 2,
                          mem_part (2 * 1024 * 1024) 3])]))"
proof (intro conjI impI)
  assume a: "deriveChunkSize sz = Return chunkSize
      \<and> getAllParts E path w = (Return (Some multi, parts, None), w1)
      \<and> parts \<noteq> [] \<and> \<not> invalidOffset offset sz chunkSize parts"
  hence a1: "deriveChunkSize sz = Return chunkSize"
    and a2: "getAllParts E path w = (Return (Some multi, parts, None), w1)"
    and a3: "parts \<noteq> []"
    and a4: "\<not> invalidOffset offset sz chunkSize parts"
    by blast+
  show "resumeState offset chunkSize parts
          = Return (uint (offset div chunkSize) + 1, offset,
                    take (unat (offset div chunkSize)) parts)"
    by (rule resumeState_valid [OF a4 deriveChunkSize_nonzero [OF a1] a3])
  show "WriteStream E path offset sz w
          = (if unat chunkSize > alloc_max E
             then Some (Panic MakesliceLenOutOfRange, reader_Close E w1)
             else map_option (\<lambda>(err, w2). (Return err, reader_Close E w2))
                    (writeLoop E multi chunkSize sz (uint (offset div chunkSize) + 1) offset
                       (take (unat (offset div chunkSize)) parts) w1))"
    by (rule WriteStream_resumes [OF a1 a2 a3 a4])
qed (rule deriveChunkSize_12MB first_write_12MB resumed_write_12MB, assumption?)+

text \<open>The resumed write of the scenario: two parts of 5 MB, offset 10 MB, part number 3,
  and a chunk buffer of 5 MB that is allocated.\<close>

theorem WriteStream_resume_witness:
  "deriveChunkSize 12582912 = Return 5242880
   \<and> getAllParts mem_env ''a/b'' (mem_session ''a/b'' [5242880, 5242880] [])
       = (Return (Some \<lparr>Key = ''a/b'', UploadId = ''u''\<rparr>,
                  [mem_part 5242880 1, mem_part 5242880 2], None),
          mem_session ''a/b'' [5242880, 5242880] [])
   \<and> [mem_part 5242880 1, mem_part 5242880 2] \<noteq> []
   \<and> \<not> invalidOffset 10485760 12582912 5242880 [mem_part 5242880 1, mem_part 5242880 2]
   \<and> resumeState 10485760 5242880 [mem_part 5242880 1, mem_part 5242880 2]
       = Return (3, 10485760, [mem_part 5242880 1, mem_part 5242880 2])
   \<and> unat (5242880 :: u64) \<le> alloc_max mem_env
   \<and> WriteStream mem_env ''a/b'' 10485760 12582912 (mem_session ''a/b'' [5242880, 5242880] [])
       = map_option (\<lambda>(err, w2). (Return err, reader_Close mem_env w2))
           (writeLoop mem_env \<lparr>Key = ''a/b'', UploadId = ''u''\<rparr> 5242880 12582912 3
              10485760 [mem_part 5242880 1, mem_part 5242880 2]
              (mem_session ''a/b'' [5242880, 5242880] []))"
proof -
  let ?parts = "[mem_part 5242880 1, mem_part 5242880 2]"
  let ?w = "mem_session ''a/b'' [5242880, 5242880] []"
  let ?m = "\<lparr>Key = ''a/b'', UploadId = ''u''\<rparr>"
  have c: "deriveChunkSize 12582912 = Return 5242880"
    by (simp add: deriveChunkSize_def chunkSizeLoop.simps minChunkSize_def listPartsMax_def)
  have g: "getAllParts mem_env ''a/b'' ?w = (Return (Some ?m, ?parts, None), ?w)"
    by (simp add: Let_def driver_defs mem_defs)
  have n: "?parts \<noteq> []"
    by simp
  have v: "\<not> invalidOffset 10485760 12582912 5242880 ?parts"
    by (simp add: invalidOffset_def)
  from WriteStream_resume
    [of 12582912 5242880 mem_env "''a/b''" ?w ?m ?parts ?w 10485760 "[]" "[]" "[]"]
    c g n v
  have "resumeState 10485760 5242880 ?parts
          = Return (uint (10485760 div 5242880 :: u64) + 1, 10485760,
                    take (unat (10485760 div 5242880 :: u64)) ?parts)"
    by blast
  hence r: "resumeState 10485760 5242880 ?parts = Return (3, 10485760, ?parts)"
    by simp
  have a: "unat (5242880 :: u64) \<le> alloc_max mem_env"
    by (simp add: mem_env_def maxAlloc_def)
  from WriteStream_resume
    [of 12582912 5242880 mem_env "''a/b''" ?w ?m ?parts ?w 10485760 "[]" "[]" "[]"]
    c g n v
  have "WriteStream mem_env ''a/b'' 10485760 12582912 ?w
          = (if unat (5242880 :: u64) > alloc_max mem_env
             then Some (Panic MakesliceLenOutOfRange, reader_Close mem_env ?w)
             else map_option (\<lambda>(err, w2). (Return err, reader_Close mem_env w2))
                    (writeLoop mem_env ?m 5242880 12582912
                       (uint (10485760 div 5242880 :: u64) + 1) 10485760
                       (take (unat (10485760 div 5242880 :: u64)) ?parts) ?w))"
    by blast
  hence l: "WriteStream mem_env ''a/b'' 10485760 12582912 ?w
          = map_option (\<lambda>(err, w2). (Return err, reader_Close mem_env w2))
              (writeLoop mem_env ?m 5242880 12582912 3 10485760 ?parts ?w)"
    using a by simp
  show ?thesis
    by (intro conjI c g n v r a l)
qed

subsection \<open>Short reads\<close>

text \<open>
  C4, as the claim states it, fails when the short read ends with an error of the
  reader: three bytes arrive, the total is not the declared size, and WriteStream
  returns the reader's error, not \<open>nil\<close>.
\<close>

theorem short_read_error_counterexample:
  "deriveChunkSize 10 = Return 5242880
   \<and> mem_ReadFull (unat (5242880 :: u64))
        ((mem_session ''a/b'' [] [1, 2, 3])\<lparr>m_read_error := Some (ReaderError ''reset'')\<rparr>)
      = (([1, 2, 3], Some (ReaderError ''reset'')),
         (mem_session ''a/b'' [] [])\<lparr>m_read_error := Some (ReaderError ''reset'')\<rparr>)
   \<and> length [1, 2, 3 :: byte] < unat (5242880 :: u64)
   \<and> (0 :: u64) + of_nat (length [1, 2, 3 :: byte]) \<noteq> 10
   \<and> WriteStream mem_env ''a/b'' 0 10
        ((mem_session ''a/b'' [] [1, 2, 3])\<lparr>m_read_error := Some (ReaderError ''reset'')\<rparr>)
      = Some (Return (Some (ReadError (ReaderError ''reset''))),
              (mem_session ''a/b'' [] [])
                \<lparr>m_read_error := Some (ReaderError ''reset''), m_closed := True\<rparr>)"
  by (simp add: eval_defs)

lemma loopIter_writeLoop:
  assumes "loopIter E multi chunkSize sz (partNumber, totalRead, parts, w)
             (partNumber', totalRead', parts', w')"
  shows "writeLoop E multi chunkSize sz partNumber totalRead parts w
           = writeLoop E multi chunkSize sz partNumber' totalRead' parts' w'"
  using assms
proof (cases rule: loopIter.cases)
  case (next_part buf err w1 part)
  show ?thesis
    using next_part
    by (subst writeLoop.simps) (auto simp: Let_def)
qed

lemma loopIter_star_writeLoop:
  assumes "(loopIter E multi chunkSize sz)\<^sup>*\<^sup>* s s'"
  shows "(case s of (partNumber, totalRead, parts, w) \<Rightarrow>
            writeLoop E multi chunkSize sz partNumber totalRead parts w)
       = (case s' of (partNumber, totalRead, parts, w) \<Rightarrow>
            writeLoop E multi chunkSize sz partNumber totalRead parts w)"
  using assms
proof (induction rule: rtranclp_induct)
  case base
  show ?case by simp
next
  case (step y z)
  obtain a b c d where y: "y = (a, b, c, d)" by (cases y)
  obtain a' b' c' d' where z: "z = (a', b', c', d')" by (cases z)
  from step.hyps(2) y z step.IH show ?case
    by (simp add: loopIter_writeLoop)
qed

lemma writeLoop_short_read:
  assumes rd: "io_ReadFull E (unat chunkSize) w = ((buf, err), w')"
    and noerr: "err = None \<or> err = Some ErrUnexpectedEOF \<or> err = Some EOF"
    and short: "length buf < unat chunkSize"
    and ne: "totalRead + of_nat (length buf) \<noteq> sz"
  shows "writeLoop E multi chunkSize sz partNumber totalRead parts w = Some (None, w')"
proof -
  have "unat chunkSize < 2 ^ 64"
    using unsigned_less [of chunkSize] by simp
  hence "unat (of_nat (length buf) :: u64) = length buf"
    using short by (simp add: unat_of_nat)
  hence "(of_nat (length buf) :: u64) < chunkSize"
    using short by (simp add: word_less_nat_alt)
  thus ?thesis
    using rd noerr ne by (subst writeLoop.simps) (auto simp: Let_def)
qed

lemma writeLoop_read_error:
  assumes "io_ReadFull E (unat chunkSize) w = ((buf, err), w')"
    and "\<not> (err = None \<or> err = Some ErrUnexpectedEOF \<or> err = Some EOF)"
  shows "writeLoop E multi chunkSize sz partNumber totalRead parts w
           = Some (map_option ReadError err, w')"
  using assms by (subst writeLoop.simps) (auto simp: Let_def)

text \<open>
  C4, amended. Whenever, in the streaming loop of WriteStream (which is entered once
  the buffer of line 161 is allocated), a read returns fewer than \<open>chunkSize\<close> bytes
  and the running total is not the declared size, the loop stops
  without uploading the partial buffer: the world after the call is the one that read
  left, with the reader closed. WriteStream then returns \<open>nil\<close>, unless the read failed
  with an error other than \<open>io.EOF\<close> and \<open>io.ErrUnexpectedEOF\<close>: then it returns that
  error. Any number of parts may have been uploaded by earlier passes of the loop.
\<close>

theorem WriteStream_short_read:
  assumes "deriveChunkSize sz = Return chunkSize"
    and "getAllParts E path w0 = (Return (Some multi, parts0, None), w1)"
    and "\<not> invalidOffset offset sz chunkSize parts0"
    and "resumeState offset chunkSize parts0 = Return start"
    and "(loopIter E multi chunkSize sz)\<^sup>*\<^sup>* (fst start, fst (snd start), snd (snd start), w1)
           (partNumber, totalRead, parts, w)"
    and "io_ReadFull E (unat chunkSize) w = ((buf, err), w')"
    and "length buf < unat chunkSize"
    and "totalRead + of_nat (length buf) \<noteq> sz"
    and "unat chunkSize \<le> alloc_max E"
  shows "WriteStream E path offset sz w0
           = Some (Return (if err = None \<or> err = Some ErrUnexpectedEOF \<or> err = Some EOF
                           then None else map_option ReadError err),
                   reader_Close E w')"
proof -
  let ?r = "if err = None \<or> err = Some ErrUnexpectedEOF \<or> err = Some EOF
            then None else map_option ReadError err"
  obtain pn0 tr0 ps0 where start: "start = (pn0, tr0, ps0)"
    by (cases start)
  have "writeLoop E multi chunkSize sz pn0 tr0 ps0 w1
          = writeLoop E multi chunkSize sz partNumber totalRead parts w"
    using loopIter_star_writeLoop [OF assms(5)] start by simp
  also have "\<dots> = Some (?r, w')"
  proof (cases "err = None \<or> err = Some ErrUnexpectedEOF \<or> err = Some EOF")
    case True
    from writeLoop_short_read [OF assms(6) True assms(7,8)] True show ?thesis
      by simp
  next
    case False
    from writeLoop_read_error [OF assms(6) False] False show ?thesis
      by simp
  qed
  finally show ?thesis
    using assms(1-4,9) start by (simp add: WriteStream_def)
qed

text \<open>A reader with one chunk and three more bytes, for a declared size of 12 MB: one
  pass uploads part 1, the next read is short, and the call returns \<open>nil\<close> with one
  upload logged.\<close>

theorem WriteStream_short_read_witness:
  "deriveChunkSize 12582912 = Return 5242880
   \<and> unat (5242880 :: u64) \<le> alloc_max mem_env
   \<and> length (replicate 3 (0 :: byte)) < unat (5242880 :: u64)
   \<and> (5242880 :: u64) + of_nat (length (replicate 3 (0 :: byte))) \<noteq> 12582912
   \<and> map_option (\<lambda>(r, w'). (r, m_puts w', m_completed w', m_closed w'))
        (WriteStream mem_env ''a/b'' 0 12582912 (mem_init (replicate 5242883 0)))
       = Some (Return None, [(1, 5242880)], [], True)"
proof -
  let ?m = "\<lparr>Key = ''a/b'', UploadId = ''u''\<rparr>"
  let ?w0 = "mem_init (replicate 5242883 0)"
  let ?w1 = "snd (getAllParts mem_env ''a/b'' ?w0)"
  let ?w1r = "snd (io_ReadFull mem_env (unat (5242880 :: u64)) ?w1)"
  let ?p = "\<lparr>PartN = 1, ETag = '''', Size = 5242880\<rparr>"
  let ?w2 = "snd (multi_PutPart mem_env ?m 1 (replicate 5242880 0) ?w1r)"
  let ?w3 = "snd (io_ReadFull mem_env (unat (5242880 :: u64)) ?w2)"
  have c: "deriveChunkSize 12582912 = Return 5242880"
    by (simp add: deriveChunkSize_def chunkSizeLoop.simps minChunkSize_def listPartsMax_def)
  have g: "getAllParts mem_env ''a/b'' ?w0 = (Return (Some ?m, [], None), ?w1)"
    by (simp add: Let_def driver_defs mem_defs)
  have v: "\<not> invalidOffset 0 12582912 5242880 []"
    by (simp add: invalidOffset_def)
  have r: "resumeState 0 5242880 [] = Return (1, 0, [])"
    by (simp add: resumeState_def)
  have "loopIter mem_env ?m 5242880 12582912 (1, 0, [], ?w1)
          (1 + 1, 0 + of_nat (length (replicate 5242880 (0 :: byte))), [] @ [?p], ?w2)"
    by (rule loopIter.next_part [where err = None and ?w1.0 = ?w1r])
       (simp_all add: Let_def driver_defs mem_defs)
  hence it: "(loopIter mem_env ?m 5242880 12582912)\<^sup>*\<^sup>*
          (fst (1, 0 :: u64, [] :: Part list), fst (snd (1 :: int, 0 :: u64, [] :: Part list)),
           snd (snd (1 :: int, 0 :: u64, [] :: Part list)), ?w1)
          (2, 5242880, [?p], ?w2)"
    by simp
  have rd: "io_ReadFull mem_env (unat (5242880 :: u64)) ?w2
              = ((replicate 3 0, Some ErrUnexpectedEOF), ?w3)"
    by (simp add: Let_def driver_defs mem_defs)
  have s: "length (replicate 3 (0 :: byte)) < unat (5242880 :: u64)"
    by simp
  have n: "(5242880 :: u64) + of_nat (length (replicate 3 (0 :: byte))) \<noteq> 12582912"
    by simp
  have a: "unat (5242880 :: u64) \<le> alloc_max mem_env"
    by (simp add: mem_env_def maxAlloc_def)
  from WriteStream_short_read [OF c g v r it rd s n a]
  have "WriteStream mem_env ''a/b'' 0 12582912 ?w0 = Some (Return None, reader_Close mem_env ?w3)"
    by simp
  hence "map_option (\<lambda>(r, w'). (r, m_puts w', m_completed w', m_closed w'))
        (WriteStream mem_env ''a/b'' 0 12582912 ?w0)
       = Some (Return None, [(1, 5242880)], [], True)"
    by (simp add: Let_def driver_defs mem_defs)
  with c a s n show ?thesis
    by (intro conjI)
qed

subsection \<open>Errors of the store\<close>

lemma writeLoop_PutPart_error:
  assumes "io_ReadFull E (unat chunkSize) w = ((buf, err), w1)"
    and "err = None \<or> err = Some ErrUnexpectedEOF \<or> err = Some EOF"
    and "\<not> ((of_nat (length buf) :: u64) < chunkSize \<and> totalRead + of_nat (length buf) \<noteq> sz)"
    and "multi_PutPart E multi partNumber buf w1 = (Inl e, w2)"
  shows "writeLoop E multi chunkSize sz partNumber totalRead parts w
           = Some (Some (StoreError e), w2)"
  using assms by (subst writeLoop.simps) (auto simp: Let_def)

lemma writeLoop_Complete_ignored:
  assumes "io_ReadFull E (unat chunkSize) w = ((buf, err), w1)"
    and "err = None \<or> err = Some ErrUnexpectedEOF \<or> err = Some EOF"
    and "totalRead + of_nat (length buf) = sz"
    and "multi_PutPart E multi partNumber buf w1 = (Inr part, w2)"
    and "multi_Complete E multi (parts @ [part]) w2 = (r, w3)"
  shows "writeLoop E multi chunkSize sz partNumber totalRead parts w = Some (None, w3)"
  using assms by (subst writeLoop.simps) (auto simp: Let_def)

text \<open>
  C5 does not hold of the code. An error of \<open>PutPart\<close> is returned at once
  (\<open>writeLoop_PutPart_error\<close>), but the value of \<open>multi.Complete(parts)\<close> is dropped
  (\<open>writeLoop_Complete_ignored\<close>): on a store whose \<open>Complete\<close> fails, a write of
  three bytes with the declared size 3 uploads its part and returns \<open>nil\<close>, so the
  failure of the completion call is not reported.
\<close>

theorem WriteStream_drops_Complete_error:
  "multi_Complete (mem_env\<lparr>multi_Complete := \<lambda>m parts w. (Some (TransportError ''timeout''), w)\<rparr>)
      \<lparr>Key = ''a/b'', UploadId = ''u''\<rparr> [mem_part 3 1]
      ((mem_session ''a/b'' [3] [])\<lparr>m_puts := [(1, 3)]\<rparr>)
     = (Some (TransportError ''timeout''), (mem_session ''a/b'' [3] [])\<lparr>m_puts := [(1, 3)]\<rparr>)
   \<and> WriteStream (mem_env\<lparr>multi_Complete := \<lambda>m parts w. (Some (TransportError ''timeout''), w)\<rparr>)
        ''a/b'' 0 3 (mem_session ''a/b'' [] [1, 2, 3])
     = Some (Return None, (mem_session ''a/b'' [3] [])\<lparr>m_puts := [(1, 3)], m_closed := True\<rparr>)"
  by (simp add: eval_defs fun_eq_iff)

subsection \<open>CurrentSize\<close>

lemma CurrentSize_formula:
  assumes "getAllParts E path w = (Return (multi, parts, None), w1)"
  shows "CurrentSize E path w
           = (Return (if parts = [] then 0
                      else (of_nat (length parts) - 1) * of_int (Size (hd parts))
                           + of_int (Size (last parts)), None), w1)"
  using assms by (simp add: CurrentSize_def hd_conv_nth last_conv_nth)

lemma insort_key_greatest:
  "\<forall>y \<in> set xs. f y < f x \<Longrightarrow> insort_key f x xs = xs @ [x]"
  by (induction xs) auto

lemma mem_parts_append:
  "insort_key PartN (mem_part c (Suc k))
     (filter (\<lambda>q. PartN q \<noteq> int (Suc k)) (map (mem_part c) [1..<Suc k]))
   = map (mem_part c) [1..<Suc (Suc k)]"
proof -
  have "filter (\<lambda>q. PartN q \<noteq> int (Suc k)) (map (mem_part c) [1..<Suc k])
          = map (mem_part c) [1..<Suc k]"
    by (rule filter_True) (auto simp: mem_part_def)
  moreover have "insort_key PartN (mem_part c (Suc k)) (map (mem_part c) [1..<Suc k])
          = map (mem_part c) [1..<Suc k] @ [mem_part c (Suc k)]"
    by (rule insort_key_greatest) (auto simp: mem_part_def)
  ultimately show ?thesis by simp
qed

lemma unat_of_nat_below:
  fixes s :: u64
  assumes "n < unat s"
  shows "unat (of_nat n :: u64) = n"
proof -
  have "unat s < 2 ^ 64"
    using unsigned_less [of s] by simp
  hence "n < 2 ^ 64"
    using assms by simp
  thus ?thesis
    by (simp add: unat_of_nat)
qed

lemma writeLoop_partial:
  fixes C sz :: u64
  assumes "0 < unat C"
    and "chunks_written path (unat C) k0 k w"
    and "k * unat C + length (m_input w) < unat sz"
  shows "\<exists>w'. writeLoop (mem_env\<lparr>alloc_max := L\<rparr>) \<lparr>Key = path, UploadId = ''u''\<rparr> C sz (int (Suc k))
                 (of_nat (k * unat C)) ps w = Some (None, w')
              \<and> chunks_written path (unat C) k0 (k + length (m_input w) div unat C) w'"
  using assms(2,3)
proof (induction "length (m_input w)" arbitrary: k w ps rule: less_induct)
  case less
  let ?c = "unat C"
  let ?m = "\<lparr>Key = path, UploadId = ''u''\<rparr>"
  have szb: "unat sz < 2 ^ 64"
    using unsigned_less [of sz] by simp
  note cw = less.prems(1) [unfolded chunks_written_def]
  show ?case
  proof (cases "?c \<le> length (m_input w)")
    case True
    let ?buf = "take ?c (m_input w)"
    let ?w1 = "w\<lparr>m_input := drop ?c (m_input w)\<rparr>"
    let ?part = "mem_part ?c (Suc k)"
    let ?w2 = "?w1\<lparr>m_parts := (m_parts ?w1)(''u'' := map (mem_part ?c) [1..<Suc (Suc k)]),
                   m_puts := m_puts ?w1 @ [(int (Suc k), ?c)]\<rparr>"
    have len: "length ?buf = ?c"
      using True by simp
    have rd: "io_ReadFull (mem_env\<lparr>alloc_max := L\<rparr>) (unat C) w = ((?buf, None), ?w1)"
      using True by (simp add: mem_env_def mem_ReadFull_def)
    have put: "multi_PutPart (mem_env\<lparr>alloc_max := L\<rparr>) ?m (int (Suc k)) ?buf ?w1 = (Inr ?part, ?w2)"
      using cw len mem_parts_append [of ?c k]
      by (simp add: mem_env_def mem_PutPart_def Let_def mem_part_def)
    have tot: "(of_nat (k * ?c) :: u64) + of_nat (length ?buf) = of_nat (Suc k * ?c)"
      using len by simp
    have below: "Suc k * ?c < unat sz"
      using less.prems(2) True by simp
    have ne: "(of_nat (k * ?c) :: u64) + of_nat (length ?buf) \<noteq> sz"
    proof
      assume "(of_nat (k * ?c) :: u64) + of_nat (length ?buf) = sz"
      hence "unat sz = unat (of_nat (Suc k * ?c) :: u64)"
        by (simp only: tot)
      also have "\<dots> = Suc k * ?c"
        using below by (rule unat_of_nat_below)
      finally show False
        using below by simp
    qed
    have notshort: "\<not> ((of_nat (length ?buf) :: u64) < C \<and>
        (of_nat (k * ?c) :: u64) + of_nat (length ?buf) \<noteq> sz)"
      using len by simp
    have step: "writeLoop (mem_env\<lparr>alloc_max := L\<rparr>) ?m C sz (int (Suc k)) (of_nat (k * ?c)) ps w
          = writeLoop (mem_env\<lparr>alloc_max := L\<rparr>) ?m C sz (int (Suc k) + 1) (of_nat (k * ?c) + of_nat (length ?buf))
              (ps @ [?part]) ?w2"
      by (rule loopIter_writeLoop) (rule loopIter.next_part [OF rd _ notshort put ne], simp)
    have cw2: "chunks_written path ?c k0 (Suc k) ?w2"
      using cw by (simp add: chunks_written_def)
    have shorter: "length (m_input ?w2) < length (m_input w)"
      using True assms(1) by simp
    have bound: "Suc k * ?c + length (m_input ?w2) < unat sz"
      using less.prems(2) True by simp
    from less.hyps [OF shorter cw2 bound, of "ps @ [?part]"] obtain w' where
      w': "writeLoop (mem_env\<lparr>alloc_max := L\<rparr>) ?m C sz (int (Suc (Suc k))) (of_nat (Suc k * ?c)) (ps @ [?part]) ?w2
             = Some (None, w')"
          "chunks_written path ?c k0 (Suc k + length (m_input ?w2) div ?c) w'"
      by blast
    have eqK: "Suc k + length (m_input ?w2) div ?c = k + length (m_input w) div ?c"
      using True assms(1) by (simp add: le_div_geq)
    have pn: "int (Suc k) + 1 = int (Suc (Suc k))"
      by simp
    from step have "writeLoop (mem_env\<lparr>alloc_max := L\<rparr>) ?m C sz (int (Suc k)) (of_nat (k * ?c)) ps w
          = writeLoop (mem_env\<lparr>alloc_max := L\<rparr>) ?m C sz (int (Suc (Suc k))) (of_nat (Suc k * ?c))
              (ps @ [?part]) ?w2"
      by (simp only: pn tot)
    with w'(1) have "writeLoop (mem_env\<lparr>alloc_max := L\<rparr>) ?m C sz (int (Suc k)) (of_nat (k * ?c)) ps w
          = Some (None, w')"
      by (simp only:)
    moreover from w'(2) have "chunks_written path ?c k0 (k + length (m_input w) div ?c) w'"
      by (simp only: eqK)
    ultimately show ?thesis
      by blast
  next
    case False
    let ?w1 = "w\<lparr>m_input := []\<rparr>"
    let ?err = "Some (if m_input w = [] then EOF else ErrUnexpectedEOF)"
    have rd: "io_ReadFull (mem_env\<lparr>alloc_max := L\<rparr>) (unat C) w = ((m_input w, ?err), ?w1)"
      using False cw by (simp add: mem_env_def mem_ReadFull_def)
    have e: "?err = None \<or> ?err = Some ErrUnexpectedEOF \<or> ?err = Some EOF"
      by simp
    have short: "length (m_input w) < unat C"
      using False by simp
    have ne: "(of_nat (k * ?c) :: u64) + of_nat (length (m_input w)) \<noteq> sz"
    proof
      assume "(of_nat (k * ?c) :: u64) + of_nat (length (m_input w)) = sz"
      hence "unat sz = unat (of_nat (k * ?c + length (m_input w)) :: u64)"
        by (simp only: of_nat_add)
      also have "\<dots> = k * ?c + length (m_input w)"
        using less.prems(2) by (rule unat_of_nat_below)
      finally show False
        using less.prems(2) by simp
    qed
    have "writeLoop (mem_env\<lparr>alloc_max := L\<rparr>) ?m C sz (int (Suc k)) (of_nat (k * ?c)) ps w = Some (None, ?w1)"
      by (rule writeLoop_short_read [OF rd e short ne])
    moreover have "chunks_written path ?c k0 (k + length (m_input w) div ?c) ?w1"
      using cw False by (simp add: chunks_written_def)
    ultimately show ?thesis by blast
  qed
qed

lemma CurrentSize_chunks_written:
  fixes C :: u64
  assumes "chunks_written path (unat C) k0 k w"
  shows "CurrentSize (mem_env\<lparr>alloc_max := L\<rparr>) path w = (Return (of_nat (k * unat C), None), w)"
proof -
  let ?m = "\<lparr>Key = path, UploadId = ''u''\<rparr>"
  let ?parts = "map (mem_part (unat C)) [1..<Suc k]"
  note cw = assms [unfolded chunks_written_def]
  have g: "getAllParts (mem_env\<lparr>alloc_max := L\<rparr>) path w = (Return (Some ?m, ?parts, None), w)"
    using cw by (simp add: getAllParts_def getHighestIDMulti_def mem_env_def mem_ListMulti_def
        mem_ListParts_def)
  show ?thesis
  proof (cases k)
    case 0
    with CurrentSize_formula [OF g] show ?thesis by simp
  next
    case (Suc j)
    have "hd ?parts = mem_part (unat C) 1"
      using Suc by (simp add: hd_map del: upt_Suc)
    moreover have "last ?parts = mem_part (unat C) k"
      using Suc by (simp add: last_map del: upt_Suc)
    moreover have "?parts \<noteq> []" and "length ?parts = k"
      using Suc by simp_all
    ultimately have "CurrentSize (mem_env\<lparr>alloc_max := L\<rparr>) path w
        = (Return ((of_nat k - 1) * of_int (int (unat C)) + of_int (int (unat C)), None), w)"
      using CurrentSize_formula [OF g] by (simp add: mem_part_def)
    moreover have "(of_nat k - 1) * of_int (int (unat C)) + (of_int (int (unat C)) :: u64)
        = of_nat (k * unat C)"
      by (simp add: algebra_simps)
    ultimately show ?thesis by simp
  qed
qed

lemma whole_chunks_result:
  fixes C sz :: u64
  assumes c0: "0 < unat C"
    and cw: "chunks_written path (unat C) k0 k w"
    and b: "k * unat C + length (m_input w) < unat sz"
    and ws: "\<And>w'. writeLoop (mem_env\<lparr>alloc_max := L\<rparr>) \<lparr>Key = path, UploadId = ''u''\<rparr> C sz (int (Suc k))
                 (of_nat (k * unat C)) ps w = Some (None, w')
               \<Longrightarrow> WS = Some (Return None, reader_Close (mem_env\<lparr>alloc_max := L\<rparr>) w')"
  shows "\<exists>w' v. WS = Some (Return None, w')
            \<and> m_puts w' = map (\<lambda>n. (int n, unat C))
                             [Suc k0..<Suc (k + length (m_input w) div unat C)]
            \<and> CurrentSize (mem_env\<lparr>alloc_max := L\<rparr>) path w' = (Return (v, None), w')
            \<and> unat v = (k + length (m_input w) div unat C) * unat C"
proof -
  let ?K = "k + length (m_input w) div unat C"
  from writeLoop_partial [OF c0 cw b, where ps = ps and L = L] obtain w' where
    loop: "writeLoop (mem_env\<lparr>alloc_max := L\<rparr>) \<lparr>Key = path, UploadId = ''u''\<rparr> C sz (int (Suc k))
             (of_nat (k * unat C)) ps w = Some (None, w')" and
    cw': "chunks_written path (unat C) k0 ?K w'"
    by blast
  let ?w'' = "reader_Close (mem_env\<lparr>alloc_max := L\<rparr>) w'"
  have cw'': "chunks_written path (unat C) k0 ?K ?w''"
    using cw' by (simp add: chunks_written_def mem_env_def)
  hence puts: "m_puts ?w'' = map (\<lambda>n. (int n, unat C)) [Suc k0..<Suc ?K]"
    by (simp add: chunks_written_def)
  have cs: "CurrentSize (mem_env\<lparr>alloc_max := L\<rparr>) path ?w'' = (Return (of_nat (?K * unat C), None), ?w'')"
    using cw'' by (rule CurrentSize_chunks_written)
  have le: "length (m_input w) div unat C * unat C \<le> length (m_input w)"
    by simp
  have "?K * unat C = k * unat C + length (m_input w) div unat C * unat C"
    by (simp add: add_mult_distrib)
  hence "?K * unat C < unat sz"
    using b le by linarith
  hence "unat (of_nat (?K * unat C) :: u64) = ?K * unat C"
    by (rule unat_of_nat_below)
  with ws [OF loop] puts cs show ?thesis
    by blast
qed

lemma partial_write_size:
  assumes "deriveChunkSize sz = Return C" and "length d < unat sz" and "unat C \<le> L"
  shows "\<exists>w' v. WriteStream (mem_env\<lparr>alloc_max := L\<rparr>) path 0 sz (mem_init d) = Some (Return None, w')
            \<and> m_puts w' = map (\<lambda>n. (int n, unat C)) [1..<Suc (length d div unat C)]
            \<and> CurrentSize (mem_env\<lparr>alloc_max := L\<rparr>) path w' = (Return (v, None), w')
            \<and> unat v = length d div unat C * unat C"
proof -
  let ?m = "\<lparr>Key = path, UploadId = ''u''\<rparr>"
  let ?w1 = "(mem_init d)\<lparr>m_sessions := [?m]\<rparr>"
  have c0: "0 < unat C"
    using deriveChunkSize_nonzero [OF assms(1)] by (simp add: unat_gt_0)
  have g: "getAllParts (mem_env\<lparr>alloc_max := L\<rparr>) path (mem_init d) = (Return (Some ?m, [], None), ?w1)"
    by (simp add: getAllParts_def getHighestIDMulti_def mem_env_def mem_ListMulti_def
        mem_InitMulti_def mem_ListParts_def mem_init_def Let_def)
  have v: "\<not> invalidOffset 0 sz C []"
    by (simp add: invalidOffset_def)
  have r: "resumeState 0 C [] = Return (1, 0, [])"
    by (simp add: resumeState_def)
  have cw: "chunks_written path (unat C) 0 0 ?w1"
    by (simp add: chunks_written_def mem_init_def)
  have i: "m_input ?w1 = d"
    by (simp add: mem_init_def)
  have b: "0 * unat C + length (m_input ?w1) < unat sz"
    using assms(2) i by simp
  have "\<exists>w' v. WriteStream (mem_env\<lparr>alloc_max := L\<rparr>) path 0 sz (mem_init d) = Some (Return None, w')
            \<and> m_puts w' = map (\<lambda>n. (int n, unat C))
                             [Suc 0..<Suc (0 + length (m_input ?w1) div unat C)]
            \<and> CurrentSize (mem_env\<lparr>alloc_max := L\<rparr>) path w' = (Return (v, None), w')
            \<and> unat v = (0 + length (m_input ?w1) div unat C) * unat C"
    using assms(1,3) g v r
    by (intro whole_chunks_result [OF c0 cw b, where ps = "[]"]) (simp add: WriteStream_def)
  thus ?thesis
    by (simp only: i add_0 One_nat_def)
qed

lemma mem_session_parts:
  "map (\<lambda>(n, len). mem_part len n) (enumerate i (replicate k c)) = map (mem_part c) [i..<i + k]"
proof (induction k arbitrary: i)
  case 0
  show ?case by simp
next
  case (Suc k)
  have "[i..<i + Suc k] = i # [Suc i..<Suc i + k]"
    by (simp add: upt_conv_Cons)
  with Suc [of "Suc i"] show ?case
    by simp
qed

lemma resumed_partial_write_size:
  assumes "deriveChunkSize sz = Return C" and "k * unat C + length d < unat sz"
    and "unat C \<le> L"
  shows "\<exists>w' v. WriteStream (mem_env\<lparr>alloc_max := L\<rparr>) path (of_nat (k * unat C)) sz
                   (mem_session path (replicate k (unat C)) d) = Some (Return None, w')
            \<and> m_puts w' = map (\<lambda>n. (int n, unat C)) [Suc k..<Suc (k + length d div unat C)]
            \<and> CurrentSize (mem_env\<lparr>alloc_max := L\<rparr>) path w' = (Return (v, None), w')
            \<and> unat v = (k + length d div unat C) * unat C"
proof -
  let ?m = "\<lparr>Key = path, UploadId = ''u''\<rparr>"
  let ?c = "unat C"
  let ?w = "mem_session path (replicate k ?c) d"
  let ?parts = "map (mem_part ?c) [1..<Suc k]"
  let ?off = "of_nat (k * ?c) :: u64"
  have c0: "0 < ?c"
    using deriveChunkSize_nonzero [OF assms(1)] by (simp add: unat_gt_0)
  have ps: "m_parts ?w ''u'' = ?parts"
    using mem_session_parts [of 1 k ?c] by (simp add: mem_session_def)
  have g: "getAllParts (mem_env\<lparr>alloc_max := L\<rparr>) path ?w = (Return (Some ?m, ?parts, None), ?w)"
    using ps by (simp add: getAllParts_def getHighestIDMulti_def mem_env_def mem_ListMulti_def
        mem_ListParts_def mem_session_def)
  have "k * ?c < unat sz"
    using assms(2) by simp
  hence uo: "unat ?off = k * ?c"
    by (rule unat_of_nat_below)
  have len: "length ?parts = k"
    by simp
  have "?off = of_nat k * C"
    by simp
  hence prod: "?off = of_nat (length ?parts) * C"
    by (simp only: len)
  have "unat (?off mod C) = 0"
    using uo by (simp only: unat_mod) simp
  hence md: "?off mod C = 0"
    by (simp add: unat_eq_0)
  have v: "\<not> invalidOffset ?off sz C ?parts"
    unfolding invalidOffset_def using md by (simp only: prod) simp
  have udv: "unat (?off div C) = k"
    using uo c0 by (simp only: unat_div) simp
  have "(of_nat (unat (?off div C)) :: u64) = ?off div C"
    by simp
  hence dv: "?off div C = of_nat k"
    by (simp only: udv)
  have uk: "unat (of_nat k :: u64) = k"
    using udv by (simp only: dv)
  have r: "resumeState ?off C ?parts = Return (int (Suc k), ?off, ?parts)"
  proof (cases k)
    case 0
    then show ?thesis by (simp add: resumeState_def)
  next
    case (Suc j)
    hence "?parts \<noteq> []" by simp
    from resumeState_valid [OF v deriveChunkSize_nonzero [OF assms(1)] this]
    show ?thesis
      using uk by (simp only: dv uint_nat) simp
  qed
  have cw: "chunks_written path ?c k k ?w"
    using ps by (simp add: chunks_written_def) (simp add: mem_session_def)
  have i: "m_input ?w = d"
    by (simp add: mem_session_def)
  have b: "k * ?c + length (m_input ?w) < unat sz"
    using assms(2) i by simp
  have "\<exists>w' v. WriteStream (mem_env\<lparr>alloc_max := L\<rparr>) path ?off sz ?w = Some (Return None, w')
            \<and> m_puts w' = map (\<lambda>n. (int n, ?c))
                             [Suc k..<Suc (k + length (m_input ?w) div ?c)]
            \<and> CurrentSize (mem_env\<lparr>alloc_max := L\<rparr>) path w' = (Return (v, None), w')
            \<and> unat v = (k + length (m_input ?w) div ?c) * ?c"
    using assms(1,3) g v r
    by (intro whole_chunks_result [OF c0 cw b, where ps = ?parts]) (simp add: WriteStream_def)
  thus ?thesis
    by (simp only: i)
qed

text \<open>
  C7. When the session and its parts are obtained, CurrentSize returns 0 for no parts
  and otherwise \<open>(len(parts) - 1) * parts[0].Size + parts[len(parts)-1].Size\<close>, computed
  in \<open>uint64\<close>. Consequently, on the in-memory store with any allocation bound \<open>L\<close>
  that admits the chunk buffer, after a write that ends before the declared size (a
  new object, or a write resumed behind \<open>k\<close> whole chunks) the call has returned
  \<open>nil\<close>, has uploaded one part per whole chunk read, and CurrentSize is the number
  of bytes in whole chunks: the trailing incomplete chunk is not counted.
\<close>

theorem CurrentSize_parts:
  "(getAllParts E path w = (Return (multi, parts, None), w1)
      \<longrightarrow> CurrentSize E path w
            = (Return (if parts = [] then 0
                       else (of_nat (length parts) - 1) * of_int (Size (hd parts))
                            + of_int (Size (last parts)), None), w1))
   \<and> (deriveChunkSize sz = Return C \<and> length d < unat sz \<and> unat C \<le> L
      \<longrightarrow> (\<exists>w' v. WriteStream (mem_env\<lparr>alloc_max := L\<rparr>) path' 0 sz (mem_init d) = Some (Return None, w')
             \<and> m_puts w' = map (\<lambda>n. (int n, unat C)) [1..<Suc (length d div unat C)]
             \<and> CurrentSize (mem_env\<lparr>alloc_max := L\<rparr>) path' w' = (Return (v, None), w')
             \<and> unat v = length d div unat C * unat C))
   \<and> (deriveChunkSize sz = Return C \<and> k * unat C + length d < unat sz \<and> unat C \<le> L
      \<longrightarrow> (\<exists>w' v. WriteStream (mem_env\<lparr>alloc_max := L\<rparr>) path' (of_nat (k * unat C)) sz
                     (mem_session path' (replicate k (unat C)) d) = Some (Return None, w')
             \<and> m_puts w' = map (\<lambda>n. (int n, unat C)) [Suc k..<Suc (k + length d div unat C)]
             \<and> CurrentSize (mem_env\<lparr>alloc_max := L\<rparr>) path' w' = (Return (v, None), w')
             \<and> unat v = (k + length d div unat C) * unat C))"
proof (intro conjI impI)
  assume "getAllParts E path w = (Return (multi, parts, None), w1)"
  thus "CurrentSize E path w
            = (Return (if parts = [] then 0
                       else (of_nat (length parts) - 1) * of_int (Size (hd parts))
                            + of_int (Size (last parts)), None), w1)"
    by (rule CurrentSize_formula)
next
  assume "deriveChunkSize sz = Return C \<and> length d < unat sz \<and> unat C \<le> L"
  hence "deriveChunkSize sz = Return C" and "length d < unat sz" and "unat C \<le> L"
    by simp_all
  thus "\<exists>w' v. WriteStream (mem_env\<lparr>alloc_max := L\<rparr>) path' 0 sz (mem_init d) = Some (Return None, w')
             \<and> m_puts w' = map (\<lambda>n. (int n, unat C)) [1..<Suc (length d div unat C)]
             \<and> CurrentSize (mem_env\<lparr>alloc_max := L\<rparr>) path' w' = (Return (v, None), w')
             \<and> unat v = length d div unat C * unat C"
    by (rule partial_write_size)
next
  assume "deriveChunkSize sz = Return C \<and> k * unat C + length d < unat sz \<and> unat C \<le> L"
  hence "deriveChunkSize sz = Return C" and "k * unat C + length d < unat sz"
    and "unat C \<le> L"
    by simp_all
  thus "\<exists>w' v. WriteStream (mem_env\<lparr>alloc_max := L\<rparr>) path' (of_nat (k * unat C)) sz
                     (mem_session path' (replicate k (unat C)) d) = Some (Return None, w')
             \<and> m_puts w' = map (\<lambda>n. (int n, unat C)) [Suc k..<Suc (k + length d div unat C)]
             \<and> CurrentSize (mem_env\<lparr>alloc_max := L\<rparr>) path' w' = (Return (v, None), w')
             \<and> unat v = (k + length d div unat C) * unat C"
    by (rule resumed_partial_write_size)
qed

text \<open>Three parts of 5 MB, 5 MB and 100 bytes; and a reader with one chunk and three
  bytes for a declared size of 12 MB, on a new object and behind one uploaded chunk,
  where buffers of up to 8 MB are allocated.\<close>

theorem CurrentSize_parts_witness:
  "getAllParts mem_env ''a/b'' (mem_session ''a/b'' [5242880, 5242880, 100] [])
     = (Return (Some \<lparr>Key = ''a/b'', UploadId = ''u''\<rparr>,
                [mem_part 5242880 1, mem_part 5242880 2, mem_part 100 3], None),
        mem_session ''a/b'' [5242880, 5242880, 100] [])
   \<and> CurrentSize mem_env ''a/b'' (mem_session ''a/b'' [5242880, 5242880, 100] [])
     = (Return (10485860, None), mem_session ''a/b'' [5242880, 5242880, 100] [])
   \<and> deriveChunkSize 12582912 = Return 5242880
   \<and> unat (5242880 :: u64) \<le> 8388608
   \<and> length (replicate 5242883 (0 :: byte)) < unat (12582912 :: u64)
   \<and> (\<exists>w' v. WriteStream (mem_env\<lparr>alloc_max := 8388608\<rparr>) ''a/b'' 0 12582912 (mem_init (replicate 5242883 0))
              = Some (Return None, w')
          \<and> m_puts w' = [(1, 5242880)]
          \<and> CurrentSize (mem_env\<lparr>alloc_max := 8388608\<rparr>) ''a/b'' w' = (Return (v, None), w') \<and> unat v = 5242880)
   \<and> 1 * unat (5242880 :: u64) + length (replicate 5242883 (0 :: byte)) < unat (12582912 :: u64)
   \<and> (\<exists>w' v. WriteStream (mem_env\<lparr>alloc_max := 8388608\<rparr>) ''a/b'' 5242880 12582912
                 (mem_session ''a/b'' [5242880] (replicate 5242883 0))
              = Some (Return None, w')
          \<and> m_puts w' = [(2, 5242880)]
          \<and> CurrentSize (mem_env\<lparr>alloc_max := 8388608\<rparr>) ''a/b'' w' = (Return (v, None), w') \<and> unat v = 10485760)"
proof -
  let ?w = "mem_session ''a/b'' [5242880, 5242880, 100] []"
  let ?m = "\<lparr>Key = ''a/b'', UploadId = ''u''\<rparr>"
  let ?parts = "[mem_part 5242880 1, mem_part 5242880 2, mem_part 100 3]"
  let ?d = "replicate 5242883 (0 :: byte)"
  have g: "getAllParts mem_env ''a/b'' ?w = (Return (Some ?m, ?parts, None), ?w)"
    by (simp add: Let_def driver_defs mem_defs)
  have c: "deriveChunkSize 12582912 = Return 5242880"
    by (simp add: deriveChunkSize_def chunkSizeLoop.simps minChunkSize_def listPartsMax_def)
  have l: "length ?d < unat (12582912 :: u64)"
    by simp
  have l2: "1 * unat (5242880 :: u64) + length ?d < unat (12582912 :: u64)"
    by simp
  have a: "unat (5242880 :: u64) \<le> 8388608"
    by simp
  note inst = CurrentSize_parts
    [where E = mem_env and path = "''a/b''" and w = ?w and multi = "Some ?m" and parts = ?parts
       and ?w1.0 = ?w and sz = 12582912 and C = 5242880 and d = ?d and path' = "''a/b''"
       and k = 1 and L = 8388608]
  from inst g have "CurrentSize mem_env ''a/b'' ?w
            = (Return (if ?parts = [] then 0
                       else (of_nat (length ?parts) - 1) * of_int (Size (hd ?parts))
                            + of_int (Size (last ?parts)), None), ?w)"
    by blast
  hence s: "CurrentSize mem_env ''a/b'' ?w = (Return (10485860, None), ?w)"
    by (simp add: mem_part_def)
  from inst c l a have "\<exists>w' v. WriteStream (mem_env\<lparr>alloc_max := 8388608\<rparr>) ''a/b'' 0 12582912 (mem_init ?d)
              = Some (Return None, w')
          \<and> m_puts w' = map (\<lambda>n. (int n, unat (5242880 :: u64)))
                           [1..<Suc (length ?d div unat (5242880 :: u64))]
          \<and> CurrentSize (mem_env\<lparr>alloc_max := 8388608\<rparr>) ''a/b'' w' = (Return (v, None), w')
          \<and> unat v = length ?d div unat (5242880 :: u64) * unat (5242880 :: u64)"
    by blast
  hence p: "\<exists>w' v. WriteStream (mem_env\<lparr>alloc_max := 8388608\<rparr>) ''a/b'' 0 12582912 (mem_init ?d)
              = Some (Return None, w')
          \<and> m_puts w' = [(1, 5242880)]
          \<and> CurrentSize (mem_env\<lparr>alloc_max := 8388608\<rparr>) ''a/b'' w' = (Return (v, None), w') \<and> unat v = 5242880"
    by simp
  from inst c l2 a have "\<exists>w' v. WriteStream (mem_env\<lparr>alloc_max := 8388608\<rparr>) ''a/b'' (of_nat (1 * unat (5242880 :: u64)))
                 12582912 (mem_session ''a/b'' (replicate 1 (unat (5242880 :: u64))) ?d)
              = Some (Return None, w')
          \<and> m_puts w' = map (\<lambda>n. (int n, unat (5242880 :: u64)))
                           [Suc 1..<Suc (1 + length ?d div unat (5242880 :: u64))]
          \<and> CurrentSize (mem_env\<lparr>alloc_max := 8388608\<rparr>) ''a/b'' w' = (Return (v, None), w')
          \<and> unat v = (1 + length ?d div unat (5242880 :: u64)) * unat (5242880 :: u64)"
    by blast
  hence q: "\<exists>w' v. WriteStream (mem_env\<lparr>alloc_max := 8388608\<rparr>) ''a/b'' 5242880 12582912
                 (mem_session ''a/b'' [5242880] ?d)
              = Some (Return None, w')
          \<and> m_puts w' = [(2, 5242880)]
          \<and> CurrentSize (mem_env\<lparr>alloc_max := 8388608\<rparr>) ''a/b'' w' = (Return (v, None), w') \<and> unat v = 10485760"
    by simp
  show ?thesis
    by (intro conjI g s c a l p l2 q)
qed

subsection \<open>Session resolution\<close>

lemma highestIDLoop_highest:
  assumes "multi = None \<or> (\<exists>c. multi = Some c \<and> Key c = path \<and> UploadId c = uploadID)"
    and "highestIDLoop path ms uploadID multi = Some m"
  shows "Key m = path \<and> uploadID \<le> UploadId m \<and> (m \<in> set ms \<or> multi = Some m)
         \<and> (\<forall>m' \<in> set ms. Key m' = path \<longrightarrow> UploadId m' \<le> UploadId m)"
  using assms
proof (induction ms arbitrary: uploadID multi)
  case Nil
  then show ?case by auto
next
  case (Cons a ms)
  show ?case
  proof (cases "Key a = path \<and> uploadID \<le> UploadId a")
    case True
    hence "highestIDLoop path ms (UploadId a) (Some a) = Some m"
      using Cons.prems(2) by simp
    from Cons.IH [OF _ this] True
    have "Key m = path \<and> UploadId a \<le> UploadId m \<and> (m \<in> set ms \<or> Some a = Some m)
         \<and> (\<forall>m' \<in> set ms. Key m' = path \<longrightarrow> UploadId m' \<le> UploadId m)"
      by simp
    with True show ?thesis by auto
  next
    case False
    hence "highestIDLoop path ms uploadID multi = Some m"
      using Cons.prems(2) by auto
    from Cons.IH [OF Cons.prems(1) this] False show ?thesis by auto
  qed
qed

lemma highestIDLoop_found:
  assumes "\<exists>m \<in> set ms. Key m = path"
    and "multi = None \<or> (\<exists>c. multi = Some c \<and> UploadId c = uploadID)"
    and "multi = None \<longrightarrow> uploadID = ''''"
  shows "highestIDLoop path ms uploadID multi \<noteq> None"
  using assms
proof (induction ms arbitrary: uploadID multi)
  case Nil
  then show ?case by simp
next
  case (Cons a ms)
  show ?case
  proof (cases "Key a = path \<and> uploadID \<le> UploadId a")
    case True
    show ?thesis
    proof (cases "\<exists>m \<in> set ms. Key m = path")
      case True
      with \<open>Key a = path \<and> uploadID \<le> UploadId a\<close> Cons.IH [of "Some a" "UploadId a"]
      show ?thesis by simp
    next
      case False
      hence "highestIDLoop path ms (UploadId a) (Some a) = Some a"
        by (induction ms) auto
      with True show ?thesis by simp
    qed
  next
    case False
    show ?thesis
    proof (cases multi)
      case None
      with Cons.prems(3) have "uploadID = ''''" by simp
      with False Cons.prems(1) have "\<exists>m \<in> set ms. Key m = path" by auto
      with Cons.IH [OF this Cons.prems(2,3)] False show ?thesis by auto
    next
      case (Some c)
      have "highestIDLoop path ms uploadID (Some c) \<noteq> None"
        by (induction ms arbitrary: uploadID c) auto
      with False Some show ?thesis by auto
    qed
  qed
qed

lemma getHighestIDMulti_highest:
  assumes "bucket_ListMulti E path '''' w = ((multis, None), w1)"
    and "\<exists>m \<in> set multis. Key m = path"
  shows "\<exists>m. getHighestIDMulti E path w = ((Some m, None), w1) \<and> m \<in> set multis
           \<and> Key m = path
           \<and> (\<forall>m' \<in> set multis. Key m' = path \<longrightarrow> UploadId m' \<le> UploadId m)"
proof -
  from highestIDLoop_found [OF assms(2), of None "''''"]
  obtain m where m: "highestIDLoop path multis '''' None = Some m"
    by auto
  from highestIDLoop_highest [OF _ m] have
    "Key m = path \<and> m \<in> set multis
       \<and> (\<forall>m' \<in> set multis. Key m' = path \<longrightarrow> UploadId m' \<le> UploadId m)"
    by simp
  moreover have "multis \<noteq> []"
    using assms(2) by auto
  ultimately show ?thesis
    using assms(1) m by (simp add: getHighestIDMulti_def)
qed

lemma getHighestIDMulti_empty_listing:
  assumes "bucket_ListMulti E path '''' w = (([], None), w1)"
    and "bucket_InitMulti E path w1 = (Inr m, w2)"
  shows "getHighestIDMulti E path w = ((Some m, None), w2)"
  using assms by (simp add: getHighestIDMulti_def)

text \<open>
  C8 does not hold of the code. Among the listed sessions whose key is the path the
  one with the highest upload identifier is chosen (\<open>getHighestIDMulti_highest\<close>), and
  an empty listing starts a new session (\<open>getHighestIDMulti_empty_listing\<close>). But a
  listing that is not empty and holds only sessions of other keys starts no session:
  getHighestIDMulti returns the nil pointer with no error and leaves the store as it
  is, and getAllParts, and with it WriteStream, panics on that pointer.
\<close>

theorem getHighestIDMulti_other_keys_only:
  "fst (bucket_ListMulti mem_env ''a/b'' '''' (mem_session ''a/b2'' [] []))
     = ([\<lparr>Key = ''a/b2'', UploadId = ''u''\<rparr>], None)
   \<and> getHighestIDMulti mem_env ''a/b'' (mem_session ''a/b2'' [] [])
     = ((None, None), mem_session ''a/b2'' [] [])
   \<and> getAllParts mem_env ''a/b'' (mem_session ''a/b2'' [] [])
     = (Panic NilDereference, mem_session ''a/b2'' [] [])
   \<and> WriteStream mem_env ''a/b'' 0 3 (mem_session ''a/b2'' [] [1, 2, 3])
     = Some (Panic NilDereference, (mem_session ''a/b2'' [] [1, 2, 3])\<lparr>m_closed := True\<rparr>)"
  by (simp add: eval_defs)

subsection \<open>Delete\<close>

lemma Delete_PathNotFound:
  assumes "fst (bucket_List E path '''' '''' listPartsMax w) = Inl e
           \<or> (\<exists>r. fst (bucket_List E path '''' '''' listPartsMax w) = Inr r \<and> Contents r = [])"
  shows "Delete E path w
           = Some (Return (Some (PathNotFoundError path)),
                   snd (bucket_List E path '''' '''' listPartsMax w))"
  using assms
  by (cases "bucket_List E path '''' '''' listPartsMax w") (auto simp: Delete_def)

lemma Delete_DelMulti_error:
  assumes "bucket_List E path '''' '''' listPartsMax w = (Inr r, w1)"
    and "Contents r \<noteq> []" and "length (Contents r) \<le> listPartsMax"
    and "bucket_DelMulti E (Contents r) w1 = (Some e, w2)"
  shows "Delete E path w = Some (Return None, w2)"
  using assms by (simp add: Delete_def deleteLoop.simps [of E path r w1])

text \<open>
  C9 does not hold of the code. Delete returns PathNotFoundError when the first listing
  fails or is empty (\<open>Delete_PathNotFound\<close>), but when \<open>DelMulti\<close> fails it returns
  \<open>nil\<close> (\<open>Delete_DelMulti_error\<close>): on a store that lists one object under the path
  and whose batch deletion fails, Delete reports success.
\<close>

theorem Delete_swallows_DelMulti_error:
  "bucket_List
      (mem_env\<lparr>bucket_List := \<lambda>prefix delim marker mx w.
         (Inr \<lparr>Contents = [''a/b/1''], CommonPrefixes = [], IsTruncated = False,
               NextMarker = ''''\<rparr>, w)\<rparr>)
      ''a/b'' '''' '''' listPartsMax (mem_init [])
     = (Inr \<lparr>Contents = [''a/b/1''], CommonPrefixes = [], IsTruncated = False,
               NextMarker = ''''\<rparr>, mem_init [])
   \<and> bucket_DelMulti
      (mem_env\<lparr>bucket_List := \<lambda>prefix delim marker mx w.
         (Inr \<lparr>Contents = [''a/b/1''], CommonPrefixes = [], IsTruncated = False,
               NextMarker = ''''\<rparr>, w)\<rparr>)
      [''a/b/1''] (mem_init [])
     = (Some (TransportError ''not served''), mem_init [])
   \<and> Delete
      (mem_env\<lparr>bucket_List := \<lambda>prefix delim marker mx w.
         (Inr \<lparr>Contents = [''a/b/1''], CommonPrefixes = [], IsTruncated = False,
               NextMarker = ''''\<rparr>, w)\<rparr>)
      ''a/b'' (mem_init [])
     = Some (Return None, mem_init [])"
  by (simp add: Delete_def deleteLoop.simps mem_env_def listPartsMax_def)

subsection \<open>List\<close>

text \<open>
  C10. List on the empty path panics: its first step reads \<open>path[len(path)-1]\<close>, which
  for the empty string is out of range, so the call neither returns a listing nor an
  error, whatever the store is. A caller has to pass a non-empty path.
\<close>

theorem List_empty_path_panics:
  "List_s3 E '''' w = Some (Panic IndexOutOfRange, w)"
  by (simp add: List_s3_def)

end
